theory Spec2Isabelle
  imports Complex_Main "HOL-Library.AList"
begin

section \<open>JavaScript values\<close>

text \<open>
  The slider is JavaScript. Its numbers are modelled as \<^typ>\<open>real\<close> (the rounding of IEEE
  doubles is not modelled); a value that JavaScript computes as \<open>undefined\<close> or \<open>NaN\<close> is
  \<open>None\<close> of an option type or the constructor \<open>JNaN\<close>. Counts and indices are \<^typ>\<open>int\<close>.
  An object is the association list of its own enumerable properties.
\<close>

datatype jsval =
    JUndefined
  | JNull
  | JBool bool
  | JNum real
  | JNaN
  | JStr string
  | JArr "jsval list"
  | JObj "(string \<times> jsval) list"

text \<open>The values for which \<open>!v\<close> is true.\<close>

fun falsy :: "jsval \<Rightarrow> bool" where
  "falsy JUndefined = True"
| "falsy JNull = True"
| "falsy (JBool b) = (\<not> b)"
| "falsy (JNum x) = (x = 0)"
| "falsy JNaN = True"
| "falsy (JStr s) = (s = [])"
| "falsy (JArr xs) = False"
| "falsy (JObj kvs) = False"

section \<open>Geometry: helpers/utils.js\<close>

text \<open>
  \<open>parseMinSlideWidth(minWidth)\<close>. The builtin \<open>parseFloat\<close> is a parameter \<open>pf\<close>: it maps a
  string to the number it starts with, or to \<open>None\<close> for \<open>NaN\<close>.
\<close>

definition parseMinSlideWidth :: "(string \<Rightarrow> real option) \<Rightarrow> jsval \<Rightarrow> real" where
  "parseMinSlideWidth pf minWidth =
     (if falsy minWidth then 0
      else case minWidth of
             JStr s \<Rightarrow> (case pf s of None \<Rightarrow> 0 | Some numericValue \<Rightarrow> numericValue)
           | JNum x \<Rightarrow> x
           | _ \<Rightarrow> 0)"

record layout_result =
  slideWidth :: real
  totalNeededWidth :: real
  leftPadding :: real

text \<open>
  \<open>calculateSlideWidth({containerWidth, slidesToShow, gap, minSlideWidth})\<close>. Both branches
  of the source are kept as written. With \<open>slidesToShow = 0\<close> the source divides by zero and
  yields \<open>Infinity\<close> or \<open>NaN\<close>, which is outside the reals: the model returns \<open>None\<close> there.
\<close>

definition calculateSlideWidth ::
  "(string \<Rightarrow> real option) \<Rightarrow> real \<Rightarrow> real \<Rightarrow> real \<Rightarrow> jsval \<Rightarrow> layout_result option" where
  "calculateSlideWidth pf containerWidth slidesToShow gap minSlideWidth =
     (if slidesToShow = 0 then None
      else
        let totalGaps = (slidesToShow - 1) * gap;
            calculatedSlideWidth = (containerWidth - totalGaps) / slidesToShow;
            parsedMinWidth = parseMinSlideWidth pf minSlideWidth
        in if parsedMinWidth > 0 \<and> calculatedSlideWidth < parsedMinWidth
           then
             let slideWidth = parsedMinWidth;
                 totalNeededWidth = (slideWidth * slidesToShow) + totalGaps;
                 leftPadding = max 0 ((containerWidth - totalNeededWidth) / 2)
             in Some \<lparr>slideWidth = slideWidth, totalNeededWidth = totalNeededWidth,
                       leftPadding = leftPadding\<rparr>
           else
             let slideWidth = calculatedSlideWidth;
                 totalNeededWidth = (slideWidth * slidesToShow) + totalGaps;
                 leftPadding = max 0 ((containerWidth - totalNeededWidth) / 2)
             in Some \<lparr>slideWidth = slideWidth, totalNeededWidth = totalNeededWidth,
                       leftPadding = leftPadding\<rparr>)"

section \<open>Objects and \<open>Object.assign\<close>\<close>

datatype error = TypeError | Unmodelled

text \<open>
  The property name of an array or string index: its decimal digits, collected from the
  last one.
\<close>

fun index_digits :: "nat \<Rightarrow> string \<Rightarrow> string" where
  "index_digits i acc =
     (if i div 10 = 0 then char_of (i mod 10 + 48) # acc
      else index_digits (i div 10) (char_of (i mod 10 + 48) # acc))"

declare index_digits.simps [simp del]

definition index_name :: "nat \<Rightarrow> string" where
  "index_name i = index_digits i []"

text \<open>
  The own enumerable properties that \<open>Object.assign\<close> copies from a source: the properties
  of an object, the indices of an array or of a string, nothing for \<open>null\<close>, \<open>undefined\<close>,
  numbers and booleans.
\<close>

fun own_props :: "jsval \<Rightarrow> (string \<times> jsval) list" where
  "own_props (JObj kvs) = kvs"
| "own_props (JArr xs) = zip (map index_name [0..<length xs]) xs"
| "own_props (JStr s) = zip (map index_name [0..<length s]) (map (\<lambda>c. JStr [c]) s)"
| "own_props v = []"

text \<open>
  An object as \<open>Object.assign\<close> builds it: its own properties in insertion order, and its
  prototype, \<open>None\<close> for the initial one (\<open>Object.prototype\<close>) and \<open>Some p\<close> once an
  assignment to \<open>__proto__\<close> has replaced it by the value \<open>p\<close>. The objects inside a value
  of type \<open>jsval\<close> are those of \<open>JSON.parse\<close> and of object literals: own data properties
  on the initial prototype (\<open>JSON.parse\<close> defines every key of the text as an own property,
  the key \<open>__proto__\<close> as well).
\<close>

record js_object =
  own :: "(string \<times> jsval) list"
  proto :: "jsval option"

definition empty_object :: js_object where
  "empty_object = \<lparr>own = [], proto = None\<rparr>"

text \<open>
  Whether the assignment \<open>target.__proto__ = v\<close> reaches the accessor of
  \<open>Object.prototype\<close>: neither the target nor its prototype has an own property of that
  name, and the prototype is not \<open>null\<close>.
\<close>

definition reaches_proto_setter :: "js_object \<Rightarrow> bool" where
  "reaches_proto_setter t =
     (''__proto__'' \<notin> fst ` set (own t)
      \<and> (case proto t of
            None \<Rightarrow> True
          | Some p \<Rightarrow> p \<noteq> JNull \<and> ''__proto__'' \<notin> fst ` set (own_props p)))"

fun is_object_or_null :: "jsval \<Rightarrow> bool" where
  "is_object_or_null (JObj kvs) = True"
| "is_object_or_null (JArr xs) = True"
| "is_object_or_null JNull = True"
| "is_object_or_null v = False"

text \<open>
  The assignment \<open>target[k] = v\<close> that \<open>Object.assign\<close> performs for each property. It
  creates or replaces an own property, except for the key \<open>__proto__\<close> when the accessor of
  \<open>Object.prototype\<close> is reached: the accessor replaces the prototype of the target by an
  object or \<open>null\<close>, ignores every other value, and creates no property.
\<close>

definition set_prop :: "js_object \<Rightarrow> string \<times> jsval \<Rightarrow> js_object" where
  "set_prop t kv =
     (if fst kv = ''__proto__'' \<and> reaches_proto_setter t
      then (if is_object_or_null (snd kv) then t\<lparr>proto := Some (snd kv)\<rparr> else t)
      else t\<lparr>own := AList.update (fst kv) (snd kv) (own t)\<rparr>)"

text \<open>
  \<open>Object.assign(target, ...sources)\<close>: every property of every source is assigned to the
  target in turn, a later write replacing an earlier one.
\<close>

definition set_props :: "js_object \<Rightarrow> (string \<times> jsval) list \<Rightarrow> js_object" where
  "set_props target kvs = foldl set_prop target kvs"

definition Object_assign :: "js_object \<Rightarrow> jsval list \<Rightarrow> js_object" where
  "Object_assign target sources = foldl (\<lambda>t src. set_props t (own_props src)) target sources"


section \<open>Configuration: helpers/config.js\<close>

definition breakpoint_entry :: "real \<Rightarrow> real \<Rightarrow> jsval" where
  "breakpoint_entry bp n =
     JObj [(''breakpoint'', JNum bp), (''settings'', JObj [(''slidesToShow'', JNum n)])]"





text \<open>
  The breakpoint list of an options object, as \<open>applyResponsiveSettings\<close> reads it:
  \<open>[...options.responsive]\<close> raises a TypeError when \<open>responsive\<close> is absent, \<open>null\<close> or
  not iterable, and so does reading \<open>.breakpoint\<close> of a \<open>null\<close> or \<open>undefined\<close> entry. Every
  other entry must be an object with a numeric \<open>breakpoint\<close>; the comparator and the test
  \<open>width <= breakpoint.breakpoint\<close> on anything else (coerced strings, \<open>NaN\<close>) are not
  modelled. An entry is the pair of its threshold and its \<open>settings\<close>.
\<close>

fun breakpoint_of :: "jsval \<Rightarrow> error + (real \<times> jsval)" where
  "breakpoint_of (JObj kvs) =
     (case map_of kvs ''breakpoint'' of
        Some (JNum bp) \<Rightarrow>
          Inr (bp, case map_of kvs ''settings'' of Some s \<Rightarrow> s | None \<Rightarrow> JUndefined)
      | _ \<Rightarrow> Inl Unmodelled)"
| "breakpoint_of JNull = Inl TypeError"
| "breakpoint_of JUndefined = Inl TypeError"
| "breakpoint_of v = Inl Unmodelled"

fun breakpoints_all :: "jsval list \<Rightarrow> error + (real \<times> jsval) list" where
  "breakpoints_all [] = Inr []"
| "breakpoints_all (v # vs) =
     (case breakpoint_of v of
        Inl e \<Rightarrow> Inl e
      | Inr b \<Rightarrow> (case breakpoints_all vs of Inl e \<Rightarrow> Inl e | Inr bs \<Rightarrow> Inr (b # bs)))"

definition responsive_of :: "(string \<times> jsval) list \<Rightarrow> error + (real \<times> jsval) list" where
  "responsive_of options =
     (case map_of options ''responsive'' of
        Some (JArr vs) \<Rightarrow> breakpoints_all vs
      | Some (JStr s) \<Rightarrow> Inl Unmodelled
      | _ \<Rightarrow> Inl TypeError)"

text \<open>
  \<open>[...].sort((a, b) => b.breakpoint - a.breakpoint)\<close>: descending thresholds. The sort of
  the language is stable, and so is insertion by key.
\<close>

definition sortedBreakpoints :: "(real \<times> jsval) list \<Rightarrow> (real \<times> jsval) list" where
  "sortedBreakpoints bps = sort_key (\<lambda>b. - fst b) bps"

text \<open>The loop over the sorted breakpoints.\<close>

fun cascade :: "real \<Rightarrow> js_object \<Rightarrow> (real \<times> jsval) list \<Rightarrow> js_object" where
  "cascade width currentOptions [] = currentOptions"
| "cascade width currentOptions (b # bs) =
     (if width \<le> fst b
      then cascade width (Object_assign currentOptions [snd b]) bs
      else cascade width currentOptions bs)"

text \<open>
  \<open>applyResponsiveSettings(options)\<close>, with \<open>window.innerWidth\<close> as the argument \<open>width\<close>. The
  options object is given by its own properties.
\<close>

definition applyResponsiveSettings ::
  "real \<Rightarrow> (string \<times> jsval) list \<Rightarrow> error + js_object" where
  "applyResponsiveSettings width options =
     (let currentOptions = Object_assign empty_object [JObj options]
      in case responsive_of options of
           Inl e \<Rightarrow> Inl e
         | Inr bps \<Rightarrow> Inr (cascade width currentOptions (sortedBreakpoints bps)))"

section \<open>The slider context: modules/navigation.js and modules/infinite-scroll.js\<close>

text \<open>
  The fields of \<open>context.currentOptions\<close> that navigation, infinite scroll and clone setup
  read, with their JavaScript types.
\<close>

record options =
  infinite :: bool
  bounceBack :: bool
  centerMode :: bool
  autoplay :: bool
  slidesToShow :: int
  slidesToScroll :: int
  gap :: real
  startSlide :: int
  autoplaySpeed :: nat

text \<open>
  What the code measures on an element: \<open>offsetLeft\<close>, \<open>offsetWidth\<close> and the computed
  paddings (\<open>parseFloat(getComputedStyle(el).paddingLeft) || 0\<close>).
\<close>

record element =
  offsetLeft :: real
  offsetWidth :: real
  paddingLeft :: real
  paddingRight :: real

text \<open>
  A call \<open>track.scrollTo({left, behavior})\<close>; \<open>left\<close> is \<open>None\<close> when the source passes
  \<open>undefined\<close> or \<open>NaN\<close>.
\<close>

record scroll_request =
  left :: "real option"
  behavior :: string

text \<open>
  The track: its box, \<open>scrollLeft\<close>, the inline \<open>style.scrollBehavior\<close> and the \<open>scrollTo\<close>
  calls it has received, oldest first. An assignment to \<open>scrollLeft\<close> is recorded as written;
  the clamping of the host to the scrollable range is not modelled.
\<close>

record track_element = element +
  scrollLeft :: real
  scrollBehavior :: string
  scrollTo_calls :: "scroll_request list"

text \<open>A callback handed to \<open>setTimeout\<close>, with its delay in milliseconds.\<close>

datatype callback = SetScrollBehavior string

record timeout =
  delay :: nat
  action :: callback

record slider_context =
  currentOptions :: options
  track :: track_element
  container :: element
  slides :: "element list"
  allSlides :: "element list option"
  totalSlides :: int
  currentSlide :: int
  slidePositions :: "real list"
  initialCloneCount :: int
  infiniteScrollSetup :: bool
  timeouts :: "timeout list"

text \<open>\<open>xs[i]\<close> for a JavaScript array: \<open>undefined\<close> outside the array.\<close>

definition at_index :: "'a list \<Rightarrow> int \<Rightarrow> 'a option" where
  "at_index xs i = (if 0 \<le> i \<and> i < int (length xs) then Some (xs ! nat i) else None)"

text \<open>
  The remainder operator \<open>a % b\<close> on integers: the sign follows the dividend; \<open>None\<close> is
  \<open>NaN\<close> (\<open>b = 0\<close>).
\<close>

definition js_rem :: "int \<Rightarrow> int \<Rightarrow> int option" where
  "js_rem a b = (if b = 0 then None else Some (sgn a * (\<bar>a\<bar> mod \<bar>b\<bar>)))"

text \<open>
  \<open>getActualSlidesToShow(container, slides, gap, configuredSlidesToShow)\<close>. A zero divisor
  gives an infinity or \<open>NaN\<close> in the source and is not modelled.
\<close>

definition getActualSlidesToShow :: "element \<Rightarrow> element list \<Rightarrow> real \<Rightarrow> int \<Rightarrow> error + int" where
  "getActualSlidesToShow cont sl g configuredSlidesToShow =
     (case sl of
        [] \<Rightarrow> Inr configuredSlidesToShow
      | s0 # _ \<Rightarrow>
          let containerWidth = offsetWidth cont;
              slideWidth = offsetWidth s0
          in if slideWidth + g = 0 then Inl Unmodelled
             else
               let actualSlidesToShow = \<lfloor>(containerWidth + g) / (slideWidth + g)\<rfloor>
               in Inr (min actualSlidesToShow configuredSlidesToShow))"

text \<open>\<open>track.scrollTo({left: l, behavior: b})\<close>.\<close>

definition scrollTo :: "real option \<Rightarrow> string \<Rightarrow> slider_context \<Rightarrow> slider_context" where
  "scrollTo l b ctx =
     ctx\<lparr>track := (track ctx)\<lparr>scrollTo_calls :=
            scrollTo_calls (track ctx) @ [\<lparr>left = l, behavior = b\<rparr>]\<rparr>\<rparr>"

text \<open>
  \<open>goToSlide(context, slideIndex)\<close>. Reading \<open>slides[0].offsetWidth\<close> with no slides raises a
  TypeError. Arithmetic on an \<open>undefined\<close> position gives \<open>NaN\<close>, here \<open>None\<close>.
\<close>

definition goToSlide :: "slider_context \<Rightarrow> int \<Rightarrow> error + slider_context" where
  "goToSlide ctx slideIndex =
     (if infinite (currentOptions ctx) then Inr ctx
      else if slideIndex < 0 \<or> slideIndex \<ge> totalSlides ctx then Inr ctx
      else
        let targetPosition =
              (if bounceBack (currentOptions ctx)
               then (let cloneCount = max (slidesToShow (currentOptions ctx)) 2
                     in at_index (slidePositions ctx) (cloneCount + slideIndex))
               else at_index (slidePositions ctx) slideIndex)
        in if centerMode (currentOptions ctx)
           then
             (case slides ctx of
                [] \<Rightarrow> Inl TypeError
              | s0 # _ \<Rightarrow>
                  let containerPaddingLeft = paddingLeft (container ctx);
                      containerPaddingRight = paddingRight (container ctx);
                      containerInnerWidth =
                        offsetWidth (container ctx) - containerPaddingLeft - containerPaddingRight;
                      slideWidth = offsetWidth s0;
                      targetPosition1 =
                        map_option (\<lambda>t. t - (containerInnerWidth / 2) + (slideWidth / 2))
                          targetPosition;
                      targetPosition2 =
                        map_option (\<lambda>t. t - containerPaddingLeft) targetPosition1
                  in Inr ((scrollTo targetPosition2 ''smooth'' ctx)\<lparr>currentSlide := slideIndex\<rparr>))
           else Inr ((scrollTo targetPosition ''smooth'' ctx)\<lparr>currentSlide := slideIndex\<rparr>))"

text \<open>
  \<open>findCurrentCenterSlideIndex(context)\<close>: the first slide of \<open>allSlides || slides\<close> whose
  centre is nearest to the centre of the visible track; index 0 for an empty list.
\<close>

fun closest_from ::
  "real \<Rightarrow> real \<Rightarrow> element list \<Rightarrow> int \<Rightarrow> int \<Rightarrow> real option \<Rightarrow> int" where
  "closest_from centerPoint trackPaddingLeft [] i closestSlide closestDistance = closestSlide"
| "closest_from centerPoint trackPaddingLeft (slide # rest) i closestSlide closestDistance =
     (let slideCenter = offsetLeft slide + (offsetWidth slide / 2) - trackPaddingLeft;
          distance = \<bar>centerPoint - slideCenter\<bar>
      in if (case closestDistance of None \<Rightarrow> True | Some d \<Rightarrow> distance < d)
         then closest_from centerPoint trackPaddingLeft rest (i + 1) i (Some distance)
         else closest_from centerPoint trackPaddingLeft rest (i + 1) closestSlide closestDistance)"

definition findCurrentCenterSlideIndex :: "slider_context \<Rightarrow> int" where
  "findCurrentCenterSlideIndex ctx =
     (let trackPaddingLeft = paddingLeft (track ctx);
          visibleTrackWidth =
            offsetWidth (track ctx) - trackPaddingLeft - paddingRight (track ctx);
          centerPoint = scrollLeft (track ctx) + (visibleTrackWidth / 2);
          slidesToUse = (case allSlides ctx of Some a \<Rightarrow> a | None \<Rightarrow> slides ctx)
      in closest_from centerPoint trackPaddingLeft slidesToUse 0 0 None)"

text \<open>\<open>goToCenterSlide(context, slideIndex)\<close>.\<close>

definition goToCenterSlide :: "slider_context \<Rightarrow> int \<Rightarrow> slider_context" where
  "goToCenterSlide ctx slideIndex =
     (let slidesToUse = (case allSlides ctx of Some a \<Rightarrow> a | None \<Rightarrow> slides ctx)
      in case at_index slidesToUse slideIndex of
           None \<Rightarrow> ctx
         | Some targetSlide \<Rightarrow>
             let trackPaddingLeft = paddingLeft (track ctx);
                 trackPaddingRight = paddingRight (track ctx);
                 visibleTrackWidth = offsetWidth (track ctx) - trackPaddingLeft - trackPaddingRight;
                 slideLeft = offsetLeft targetSlide - trackPaddingLeft;
                 slideWidth = offsetWidth targetSlide;
                 targetPosition = slideLeft - (visibleTrackWidth / 2) + (slideWidth / 2)
             in scrollTo (Some targetPosition) ''smooth'' ctx)"

text \<open>
  \<open>next(context)\<close> and \<open>prev(context)\<close>. In bounce mode a zero \<open>totalSlides\<close> makes the
  remainder \<open>NaN\<close>, which is not modelled. The result of \<open>getActualSlidesToShow\<close> is
  computed before the modes are told apart but used in plain mode only, so a value outside
  the model matters only there.
\<close>

definition "next" :: "slider_context \<Rightarrow> error + slider_context" where
  "next ctx =
     (let opts = currentOptions ctx in
      if infinite opts then
        (case slides ctx of
           [] \<Rightarrow> Inl TypeError
         | s0 # _ \<Rightarrow>
             let slideWidth = offsetWidth s0 + gap opts;
                 scrollAmount = slideWidth * real_of_int (slidesToScroll opts)
             in if centerMode opts
                then
                  let currentCenterSlide = findCurrentCenterSlideIndex ctx;
                      nextCenterSlide = currentCenterSlide + slidesToScroll opts
                  in Inr (goToCenterSlide ctx nextCenterSlide)
                else Inr (scrollTo (Some (scrollLeft (track ctx) + scrollAmount)) ''smooth'' ctx))
      else
        let actualSlidesToShow =
              getActualSlidesToShow (container ctx) (slides ctx) (gap opts) (slidesToShow opts)
        in if bounceBack opts
           then (case js_rem (currentSlide ctx + slidesToScroll opts) (totalSlides ctx) of
                   None \<Rightarrow> Inl Unmodelled
                 | Some nextSlide \<Rightarrow> goToSlide ctx nextSlide)
           else (case actualSlidesToShow of
                   Inl e \<Rightarrow> Inl e
                 | Inr a \<Rightarrow>
                     let nextSlide = min (currentSlide ctx + slidesToScroll opts)
                                         (totalSlides ctx - a)
                     in goToSlide ctx nextSlide))"

definition prev :: "slider_context \<Rightarrow> error + slider_context" where
  "prev ctx =
     (let opts = currentOptions ctx in
      if infinite opts then
        (case slides ctx of
           [] \<Rightarrow> Inl TypeError
         | s0 # _ \<Rightarrow>
             let slideWidth = offsetWidth s0 + gap opts;
                 scrollAmount = slideWidth * real_of_int (slidesToScroll opts)
             in if centerMode opts
                then
                  let currentCenterSlide = findCurrentCenterSlideIndex ctx;
                      prevCenterSlide = currentCenterSlide - slidesToScroll opts
                  in Inr (goToCenterSlide ctx prevCenterSlide)
                else Inr (scrollTo (Some (scrollLeft (track ctx) - scrollAmount)) ''smooth'' ctx))
      else
        let prevSlide =
              (if bounceBack opts
               then (let p = currentSlide ctx - slidesToScroll opts
                     in if p < 0 then totalSlides ctx + p else p)
               else max (currentSlide ctx - slidesToScroll opts) 0)
        in goToSlide ctx prevSlide)"

text \<open>
  A laid-out slider for the scenarios: \<open>n\<close> slides of width \<open>w\<close> in a container of width
  \<open>cw\<close>, one after the other with the gap of the options between them, positions measured
  from the first slide, current index \<open>cur\<close>, nothing scrolled and no clones.
\<close>

definition laid_out :: "options \<Rightarrow> real \<Rightarrow> real \<Rightarrow> nat \<Rightarrow> int \<Rightarrow> slider_context" where
  "laid_out opts cw w n cur =
     \<lparr>currentOptions = opts,
      track = \<lparr>offsetLeft = 0, offsetWidth = cw, paddingLeft = 0, paddingRight = 0,
               scrollLeft = 0, scrollBehavior = ''smooth'', scrollTo_calls = []\<rparr>,
      container = \<lparr>offsetLeft = 0, offsetWidth = cw, paddingLeft = 0, paddingRight = 0\<rparr>,
      slides = map (\<lambda>i. \<lparr>offsetLeft = (w + gap opts) * real i, offsetWidth = w,
                           paddingLeft = 0, paddingRight = 0\<rparr>) [0..<n],
      allSlides = None,
      totalSlides = int n,
      currentSlide = cur,
      slidePositions = map (\<lambda>i. (w + gap opts) * real i) [0..<n],
      initialCloneCount = 0,
      infiniteScrollSetup = False,
      timeouts = []\<rparr>"

definition plain_options :: options where
  "plain_options = \<lparr>infinite = False, bounceBack = False, centerMode = False, autoplay = False,
                     slidesToShow = 3, slidesToScroll = 1, gap = 24, startSlide = 0,
                     autoplaySpeed = 3000\<rparr>"

text \<open>
  \<open>seamlessJump(track, newPosition)\<close>: the track after the jump and the callback it hands to
  \<open>setTimeout\<close>, which writes \<open>originalBehavior || 'smooth'\<close>.
\<close>

definition seamlessJump :: "track_element \<Rightarrow> real \<Rightarrow> track_element \<times> timeout" where
  "seamlessJump tr newPosition =
     (let originalBehavior = scrollBehavior tr;
          tr1 = tr\<lparr>scrollBehavior := ''auto''\<rparr>;
          tr2 = tr1\<lparr>scrollLeft := newPosition\<rparr>
      in (tr2, \<lparr>delay = 10,
                action = SetScrollBehavior
                  (if originalBehavior = [] then ''smooth'' else originalBehavior)\<rparr>))"

text \<open>Running a callback when its timer fires.\<close>

fun run_callback :: "callback \<Rightarrow> slider_context \<Rightarrow> slider_context" where
  "run_callback (SetScrollBehavior b) ctx = ctx\<lparr>track := (track ctx)\<lparr>scrollBehavior := b\<rparr>\<rparr>"

definition jump_to :: "slider_context \<Rightarrow> real \<Rightarrow> slider_context" where
  "jump_to ctx equivalentPosition =
     (let (tr, t) = seamlessJump (track ctx) equivalentPosition
      in ctx\<lparr>track := tr, timeouts := timeouts ctx @ [t]\<rparr>)"

text \<open>
  The right teleport boundary of \<open>handleInfiniteScroll\<close>,
  \<open>slidePositions[initialCloneCount + totalSlides] - slideWidth * 2\<close>; it is \<open>NaN\<close> (\<open>None\<close>), and
  every comparison with it false, when \<open>slidePositions\<close> has no such entry.
\<close>

definition rightBoundary :: "slider_context \<Rightarrow> real \<Rightarrow> real option" where
  \<comment> \<open>\<open>w\<close> is the \<open>slideWidth\<close> of the caller: the width of the first slide plus the gap\<close>
  "rightBoundary ctx w =
     map_option (\<lambda>p. p - w * 2)
       (at_index (slidePositions ctx) (initialCloneCount ctx + totalSlides ctx))"

text \<open>\<open>handleInfiniteScroll(context)\<close> of modules/infinite-scroll.js.\<close>

definition handleInfiniteScroll :: "slider_context \<Rightarrow> error + slider_context" where
  "handleInfiniteScroll ctx =
     (if \<not> infiniteScrollSetup ctx then Inr ctx
      else
        case slides ctx of
          [] \<Rightarrow> Inl TypeError
        | s0 # _ \<Rightarrow>
            let scrollLeft0 = scrollLeft (track ctx);
                slideWidth = offsetWidth s0 + gap (currentOptions ctx);
                totalOriginalWidth = real_of_int (totalSlides ctx) * slideWidth;
                leftBoundary = slideWidth * 2
            in if scrollLeft0 \<le> leftBoundary
               then Inr (jump_to ctx (scrollLeft0 + totalOriginalWidth))
               else if (case rightBoundary ctx slideWidth of
                          None \<Rightarrow> False
                        | Some rb \<Rightarrow> scrollLeft0 \<ge> rb)
               then Inr (jump_to ctx (scrollLeft0 - totalOriginalWidth))
               else Inr ctx)"

text \<open>
  The callback that \<open>setupTrueInfinite(context)\<close> defers by 10 ms, which completes the setup.
  \<open>pl\<close> is its \<open>leftPadding\<close>, the inline left padding of the track
  (\<open>parseFloat(track.style.paddingLeft) || 0\<close>). Reading \<open>allSlides.length\<close> raises a TypeError
  when \<open>allSlides\<close> is not set, and so does \<open>slides[0].offsetWidth\<close> in centre mode without
  slides; an initial position that is \<open>undefined\<close> or \<open>NaN\<close> is taken as 0 by the host.
\<close>

definition setupTrueInfinite_deferred :: "real \<Rightarrow> slider_context \<Rightarrow> error + slider_context" where
  "setupTrueInfinite_deferred pl ctx =
     (case allSlides ctx of
        None \<Rightarrow> Inl TypeError
      | Some allSl \<Rightarrow>
          let positions = map (\<lambda>e. offsetLeft e - pl) allSl;
              opts = currentOptions ctx;
              clonesNeeded = initialCloneCount ctx;
              startIndex = clonesNeeded + startSlide opts;
              initialPosition = at_index positions startIndex;
              finish = (\<lambda>p. ctx\<lparr>slidePositions := positions,
                                 track := (track ctx)\<lparr>scrollLeft := (case p of None \<Rightarrow> 0 | Some x \<Rightarrow> x),
                                                      scrollBehavior := ''smooth''\<rparr>,
                                 currentSlide := startSlide opts,
                                 infiniteScrollSetup := True\<rparr>)
          in if centerMode opts
             then
               (case slides ctx of
                  [] \<Rightarrow> Inl TypeError
                | s0 # _ \<Rightarrow>
                    let trackPaddingLeft = paddingLeft (track ctx);
                        trackPaddingRight = paddingRight (track ctx);
                        visibleTrackWidth =
                          offsetWidth (track ctx) - trackPaddingLeft - trackPaddingRight;
                        slideWidth = offsetWidth s0
                    in Inr (finish (map_option
                                      (\<lambda>p. p - (visibleTrackWidth / 2) + (slideWidth / 2))
                                      initialPosition)))
             else Inr (finish initialPosition))"

text \<open>
  An infinite slider after its setup: \<open>n\<close> real slides of width \<open>w\<close> with \<open>k\<close> clones on each
  side, positions of all \<open>n + 2k\<close> strip items measured from the first one, scrolled to \<open>x\<close>.
\<close>

definition infinite_laid_out :: "real \<Rightarrow> real \<Rightarrow> nat \<Rightarrow> nat \<Rightarrow> real \<Rightarrow> slider_context" where
  "infinite_laid_out cw w n k x =
     (let opts = plain_options\<lparr>infinite := True\<rparr>;
          c = laid_out opts cw w n 0
      in c\<lparr>track := (track c)\<lparr>scrollLeft := x\<rparr>,
           slides := map (\<lambda>i. \<lparr>offsetLeft = (w + gap opts) * real (k + i), offsetWidth = w,
                                paddingLeft = 0, paddingRight = 0\<rparr>) [0..<n],
           slidePositions := map (\<lambda>i. (w + gap opts) * real i) [0..<n + 2 * k],
           initialCloneCount := int k,
           infiniteScrollSetup := True\<rparr>)"

section \<open>The strip: DOM nodes and clones\<close>

text \<open>
  A child of the track: the identity of the node, the slide content it shows (a clone has
  the content of its source), its class list and \<open>dataset.originalIndex\<close>.
\<close>

record slide_node =
  nid :: nat
  content :: nat
  classes :: "string list"
  originalIndex :: "int option"

text \<open>\<open>node.classList.add(...)\<close> and \<open>node.cloneNode(true)\<close>, the copy getting the identity \<open>fresh\<close>.\<close>

definition classList_add :: "string list \<Rightarrow> slide_node \<Rightarrow> slide_node" where
  "classList_add cs n = n\<lparr>classes := classes n @ filter (\<lambda>c. c \<notin> set (classes n)) (remdups cs)\<rparr>"

definition cloneNode :: "nat \<Rightarrow> slide_node \<Rightarrow> slide_node" where
  "cloneNode fresh n = n\<lparr>nid := fresh\<rparr>"

definition has_class :: "string \<Rightarrow> slide_node \<Rightarrow> bool" where
  "has_class c n = (c \<in> set (classes n))"

text \<open>\<open>track.querySelectorAll('.infinite-clone')\<close> on the children of the track.\<close>

definition infinite_clones :: "slide_node list \<Rightarrow> slide_node list" where
  "infinite_clones children = filter (has_class ''infinite-clone'') children"

text \<open>
  One iteration body shared by the cloning loops: \<open>slides[idx].cloneNode(true)\<close>, the classes
  added, \<open>dataset.originalIndex\<close> written when the loop does so. An index that is \<open>NaN\<close> or
  outside \<open>slides\<close> reads \<open>undefined\<close>, and calling \<open>cloneNode\<close> on it raises a TypeError.
\<close>

definition clone_slide ::
  "slide_node list \<Rightarrow> string list \<Rightarrow> bool \<Rightarrow> int option \<Rightarrow> nat \<Rightarrow> error + slide_node" where
  "clone_slide sl cs tagged idx fresh =
     (case idx of
        None \<Rightarrow> Inl TypeError
      | Some i \<Rightarrow>
          (case at_index sl i of
             None \<Rightarrow> Inl TypeError
           | Some s \<Rightarrow>
               let clone = classList_add cs (cloneNode fresh s)
               in Inr (if tagged then clone\<lparr>originalIndex := Some i\<rparr> else clone)))"

text \<open>
  A cloning loop over the values \<open>is\<close> of its counter: each clone is appended
  (\<open>track.appendChild(clone)\<close>) or put first (\<open>track.insertBefore(clone, track.firstChild)\<close>).
  The result is the next unused identity and the children of the track.
\<close>

fun clone_loop ::
  "(int \<Rightarrow> nat \<Rightarrow> error + slide_node) \<Rightarrow> bool \<Rightarrow> int list \<Rightarrow> nat \<Rightarrow> slide_node list
     \<Rightarrow> error + (nat \<times> slide_node list)" where
  "clone_loop mk atEnd [] fresh children = Inr (fresh, children)"
| "clone_loop mk atEnd (i # is) fresh children =
     (case mk i fresh of
        Inl e \<Rightarrow> Inl e
      | Inr clone \<Rightarrow>
          clone_loop mk atEnd is (Suc fresh) (if atEnd then children @ [clone] else clone # children))"

text \<open>
  \<open>createClonedSlides(slides, track, cloneCount, mode = 'infinite')\<close> of helpers/dom.js; the
  track is given by its children and the next unused node identity.
\<close>

definition createClonedSlides ::
  "slide_node list \<Rightarrow> nat \<times> slide_node list \<Rightarrow> int \<Rightarrow> string
     \<Rightarrow> error + (nat \<times> slide_node list)" where
  "createClonedSlides sl tr cloneCount mode =
     (let total = int (length sl);
          cloneClass = (if mode = ''infinite'' then ''infinite-clone'' else ''bounce-clone'')
      in if mode = ''infinite''
         then
           (case clone_loop (\<lambda>i. clone_slide sl [''cloned'', cloneClass] True (js_rem i total))
                   True [0..cloneCount - 1] (fst tr) (snd tr) of
              Inl e \<Rightarrow> Inl e
            | Inr (fresh1, children1) \<Rightarrow>
                clone_loop
                  (\<lambda>i. clone_slide sl [''cloned'', cloneClass] True
                         (js_rem (total - cloneCount + i) total))
                  False [0..cloneCount - 1] fresh1 children1)
         else
           (case clone_loop (\<lambda>i. clone_slide sl [''cloned'', cloneClass] False (Some i))
                   True [0..cloneCount - 1] (fst tr) (snd tr) of
              Inl e \<Rightarrow> Inl e
            | Inr (fresh1, children1) \<Rightarrow>
                clone_loop (\<lambda>i. clone_slide sl [''cloned'', cloneClass] False (Some i))
                  False [total - cloneCount..total - 1] fresh1 children1))"

text \<open>
  The cloning part of \<open>setupTrueInfinite(context)\<close> of modules/infinite-scroll.js (the method
  of the same name in the class of version 0.0.2 has the same body). The arguments are what
  it reads: \<open>container.offsetWidth\<close>, \<open>slides[0].offsetWidth\<close>, the gap, \<open>context.totalSlides\<close>
  (here \<open>T\<close>),
  the slides and the track. The result is \<open>context.initialCloneCount\<close> and the track, whose
  children become \<open>context.allSlides\<close>. A zero slide width makes \<open>clonesNeeded\<close> infinite or
  \<open>NaN\<close> and is not modelled. The callback that the function defers by 10 ms (slide
  positions, initial offset, the \<open>infiniteScrollSetup\<close> flag) does not touch the children.
\<close>

definition setupTrueInfinite ::
  "real \<Rightarrow> real \<Rightarrow> real \<Rightarrow> int \<Rightarrow> slide_node list \<Rightarrow> nat \<times> slide_node list
     \<Rightarrow> error + (int \<times> nat \<times> slide_node list)" where
  "setupTrueInfinite containerWidth w0 g T sl tr =
     (if sl = [] then Inl TypeError
      else
        let slideWidth = w0 + g
        in if slideWidth = 0 then Inl Unmodelled
           else
             let slidesPerView = \<lceil>containerWidth / slideWidth\<rceil>;
                 clonesNeeded = max T (slidesPerView * 2)
             in case clone_loop
                       (\<lambda>i. clone_slide sl [''cloned'', ''infinite-clone''] True (js_rem i T))
                       True [0..clonesNeeded - 1] (fst tr) (snd tr) of
                  Inl e \<Rightarrow> Inl e
                | Inr (fresh1, children1) \<Rightarrow>
                    (case clone_loop
                            (\<lambda>i. clone_slide sl [''cloned'', ''infinite-clone''] True
                                   (case js_rem i T of
                                      None \<Rightarrow> None
                                    | Some r \<Rightarrow> js_rem (T - 1 - r) T))
                            False [0..clonesNeeded - 1] fresh1 children1 of
                       Inl e \<Rightarrow> Inl e
                     | Inr tr2 \<Rightarrow> Inr (clonesNeeded, tr2)))"

text \<open>Real slides as the constructor finds them: the children of the track, without clones.\<close>

definition real_slides :: "nat \<Rightarrow> slide_node list" where
  "real_slides n = map (\<lambda>i. \<lparr>nid = i, content = i, classes = [''slide''], originalIndex = None\<rparr>) [0..<n]"

section \<open>The slider class: timers, autoplay, teardown and dynamic clones\<close>

text \<open>
  The callbacks the class hands to \<open>setInterval\<close> and \<open>setTimeout\<close>, and a pending timer of
  the host: its identity, whether it repeats, its delay in milliseconds and its callback.
\<close>

datatype timer_callback = AutoplayTick | ResumeAutoplay | ScrollEnd | InfiniteScrollCheck

record timer =
  timer_id :: nat
  repeating :: bool
  timer_delay :: nat
  callback :: timer_callback

text \<open>
  What the host measures for the class: \<open>offsetLeft\<close> and \<open>offsetWidth\<close> of a node given the
  current children of the track, \<open>track.scrollWidth\<close>, \<open>container.offsetWidth\<close> and the inline
  left padding of the track (\<open>parseFloat(track.style.paddingLeft) || 0\<close>). The layout engine
  is not part of the program; theorems hold for every such measure.
\<close>

record layout =
  node_offsetLeft :: "slide_node list \<Rightarrow> slide_node \<Rightarrow> real"
  node_offsetWidth :: "slide_node list \<Rightarrow> slide_node \<Rightarrow> real"
  track_scrollWidth :: "slide_node list \<Rightarrow> real"
  container_offsetWidth :: real
  track_paddingLeft :: real

text \<open>
  The fields of a \<open>NativeScrollSlider\<close> instance, \<open>this_x\<close> for \<open>this.x\<close>; \<open>this_children\<close> and
  \<open>this_scrollLeft\<close> are \<open>this.track.children\<close> and \<open>this.track.scrollLeft\<close>, \<open>this_track\<close> tells
  whether \<open>this.track\<close> is set, \<open>this_scrollTo_calls\<close> are the calls of \<open>this.track.scrollTo\<close>.
  \<open>host_timers\<close> are the timers of this instance that the host
  holds pending, \<open>next_timer\<close> and \<open>next_nid\<close> the next unused timer and node identities.
\<close>

record slider_instance =
  this_currentOptions :: options
  this_track :: bool
  this_slides :: "slide_node list"
  this_totalSlides :: int
  this_children :: "slide_node list"
  this_allSlides :: "slide_node list option"
  this_slidePositions :: "real list"
  this_scrollLeft :: real
  this_scrollTo_calls :: "scroll_request list"
  this_initialCloneCount :: "int option"
  this_currentSlide :: int
  this_isScrolling :: bool
  this_autoplayPaused :: bool
  this_autoplayInterval :: "nat option"
  this_scrollTimeout :: "nat option"
  this_infiniteScrollTimeout :: "nat option"
  host_timers :: "timer list"
  next_timer :: nat
  next_nid :: nat

text \<open>
  The instance as the constructor leaves it before \<open>init()\<close>: the slides are the children of
  the track, no timer is pending.
\<close>

definition new_slider :: "options \<Rightarrow> slide_node list \<Rightarrow> slider_instance" where
  "new_slider opts sl =
     \<lparr>this_currentOptions = opts,
      this_track = True,
      this_slides = sl,
      this_totalSlides = int (length sl),
      this_children = sl,
      this_allSlides = None,
      this_slidePositions = [],
      this_scrollLeft = 0,
      this_scrollTo_calls = [],
      this_initialCloneCount = None,
      this_currentSlide = 0,
      this_isScrolling = False,
      this_autoplayPaused = False,
      this_autoplayInterval = None,
      this_scrollTimeout = None,
      this_infiniteScrollTimeout = None,
      host_timers = [],
      next_timer = 1,
      next_nid = length sl\<rparr>"

text \<open>\<open>setTimeout\<close>/\<open>setInterval\<close> and \<open>clearTimeout\<close>/\<open>clearInterval\<close> of the host.\<close>

definition set_timer :: "bool \<Rightarrow> nat \<Rightarrow> timer_callback \<Rightarrow> slider_instance \<Rightarrow> nat \<times> slider_instance" where
  "set_timer rep ms cb s =
     (next_timer s,
      s\<lparr>host_timers := host_timers s
             @ [\<lparr>timer_id = next_timer s, repeating = rep, timer_delay = ms, callback = cb\<rparr>],
        next_timer := Suc (next_timer s)\<rparr>)"

definition clear_timer :: "nat option \<Rightarrow> slider_instance \<Rightarrow> slider_instance" where
  "clear_timer h s =
     (case h of
        None \<Rightarrow> s
      | Some i \<Rightarrow> s\<lparr>host_timers := filter (\<lambda>t. timer_id t \<noteq> i) (host_timers s)\<rparr>)"

text \<open>\<open>stopAutoplay()\<close>, \<open>startAutoplay()\<close>, \<open>pauseAutoplay()\<close> and \<open>resumeAutoplay()\<close>.\<close>

definition stopAutoplay :: "slider_instance \<Rightarrow> slider_instance" where
  "stopAutoplay s =
     (case this_autoplayInterval s of
        None \<Rightarrow> s
      | Some i \<Rightarrow> (clear_timer (Some i) s)\<lparr>this_autoplayInterval := None\<rparr>)"

definition startAutoplay :: "slider_instance \<Rightarrow> slider_instance" where
  "startAutoplay s =
     (if \<not> autoplay (this_currentOptions s) then s
      else
        let s1 = stopAutoplay s;
            (i, s2) = set_timer True (autoplaySpeed (this_currentOptions s1)) AutoplayTick s1
        in s2\<lparr>this_autoplayInterval := Some i\<rparr>)"

definition pauseAutoplay :: "slider_instance \<Rightarrow> slider_instance" where
  "pauseAutoplay s = stopAutoplay (s\<lparr>this_autoplayPaused := True\<rparr>)"

definition resumeAutoplay :: "slider_instance \<Rightarrow> slider_instance" where
  "resumeAutoplay s =
     (if autoplay (this_currentOptions s) \<and> this_autoplayPaused s
      then snd (set_timer False 1000 ResumeAutoplay (s\<lparr>this_autoplayPaused := False\<rparr>))
      else s)"

text \<open>The callback that \<open>resumeAutoplay()\<close> schedules, run when its timer fires.\<close>

definition resume_callback :: "slider_instance \<Rightarrow> slider_instance" where
  "resume_callback s =
     (if \<not> this_autoplayPaused s \<and> \<not> this_isScrolling s then startAutoplay s else s)"

text \<open>The host firing the pending one-shot timer \<open>i\<close> whose callback is \<open>ResumeAutoplay\<close>.\<close>

definition fire_resume_timer :: "nat \<Rightarrow> slider_instance \<Rightarrow> slider_instance" where
  "fire_resume_timer i s =
     (if filter (\<lambda>t. timer_id t = i \<and> callback t = ResumeAutoplay) (host_timers s) \<noteq> []
      then resume_callback (clear_timer (Some i) s)
      else s)"

text \<open>
  \<open>removeClonedSlides(track, cloneClass = '.infinite-clone')\<close> of helpers/dom.js, on the
  children of the track; the argument is the class name of the selector.
\<close>

definition removeClonedSlides :: "slide_node list \<Rightarrow> string \<Rightarrow> slide_node list" where
  "removeClonedSlides children cloneClass = filter (\<lambda>n. \<not> has_class cloneClass n) children"

text \<open>\<open>destroy()\<close> of the class of version 0.0.2.\<close>

definition destroy :: "slider_instance \<Rightarrow> slider_instance" where
  "destroy s =
     (let s1 = stopAutoplay s;
          s2 = clear_timer (this_scrollTimeout s1) s1;
          s3 = clear_timer (this_infiniteScrollTimeout s2) s2
      in if this_track s3
         then s3\<lparr>this_children := filter (\<lambda>n. \<not> has_class ''infinite-clone'' n) (this_children s3)\<rparr>
         else s3)"

text \<open>
  The cloning part of \<open>setupClonedSlides(mode)\<close> of the class of version 0.0.2, which
  \<open>setupBounceBack()\<close> calls with \<open>'bounce'\<close>: the loops are those of \<open>createClonedSlides\<close> with
  \<open>slidesToClone\<close> computed from \<open>slidesToShow\<close>. The deferred positioning callback does not
  touch the children.
\<close>

definition setupClonedSlides :: "string \<Rightarrow> slider_instance \<Rightarrow> error + slider_instance" where
  "setupClonedSlides mode s =
     (let slidesToClone = (if mode = ''infinite'' then slidesToShow (this_currentOptions s) + 1
                           else max (slidesToShow (this_currentOptions s)) 2);
          T = this_totalSlides s
      in if mode = ''infinite''
         then
           (case clone_loop
                   (\<lambda>i. clone_slide (this_slides s) [''cloned'', ''infinite-clone''] True (js_rem i T))
                   True [0..slidesToClone - 1] (next_nid s) (this_children s) of
              Inl e \<Rightarrow> Inl e
            | Inr (fresh1, children1) \<Rightarrow>
                (case clone_loop
                        (\<lambda>i. clone_slide (this_slides s) [''cloned'', ''infinite-clone''] True
                               (js_rem (T - slidesToClone + i) T))
                        False [0..slidesToClone - 1] fresh1 children1 of
                   Inl e \<Rightarrow> Inl e
                 | Inr (fresh2, children2) \<Rightarrow>
                     Inr (s\<lparr>this_children := children2, next_nid := fresh2,
                            this_initialCloneCount := Some slidesToClone,
                            this_allSlides := Some children2\<rparr>)))
         else
           (case clone_loop
                   (\<lambda>i. clone_slide (this_slides s) [''cloned'', ''bounce-clone''] False (Some i))
                   True [0..slidesToClone - 1] (next_nid s) (this_children s) of
              Inl e \<Rightarrow> Inl e
            | Inr (fresh1, children1) \<Rightarrow>
                (case clone_loop
                        (\<lambda>i. clone_slide (this_slides s) [''cloned'', ''bounce-clone''] False (Some i))
                        False [T - slidesToClone..T - 1] fresh1 children1 of
                   Inl e \<Rightarrow> Inl e
                 | Inr (fresh2, children2) \<Rightarrow>
                     Inr (s\<lparr>this_children := children2, next_nid := fresh2,
                            this_allSlides := Some children2\<rparr>))))"

text \<open>
  The scenario of a torn-down bounce slider: four slides, \<open>bounceBack\<close> and \<open>autoplay\<close> on,
  \<open>slidesToShow = 2\<close>.
\<close>

definition bounce_autoplay_options :: options where
  "bounce_autoplay_options = plain_options\<lparr>bounceBack := True, autoplay := True, slidesToShow := 2\<rparr>"

subsection \<open>Dynamic clones (class of version 0.0.1)\<close>

text \<open>\<open>calculateSlidePositions()\<close>.\<close>

definition calculateSlidePositions :: "layout \<Rightarrow> slider_instance \<Rightarrow> slider_instance" where
  "calculateSlidePositions L s =
     (let slidesToUse = (case this_allSlides s of Some a \<Rightarrow> a | None \<Rightarrow> this_slides s);
          leftPadding = track_paddingLeft L
      in s\<lparr>this_slidePositions :=
             map (\<lambda>n. node_offsetLeft L (this_children s) n - leftPadding) slidesToUse\<rparr>)"

text \<open>
  \<open>setupTrueInfinite()\<close> and \<open>setupBounceBack()\<close> of this class: their loops are, statement
  for statement, the two branches of \<open>setupClonedSlides\<close> (which the later class calls from
  them), with \<open>slidesToShow + 1\<close> clones on each side in infinite mode.
\<close>

definition setupTrueInfinite_dynamic :: "slider_instance \<Rightarrow> error + slider_instance" where
  "setupTrueInfinite_dynamic s = setupClonedSlides ''infinite'' s"

definition setupBounceBack :: "slider_instance \<Rightarrow> error + slider_instance" where
  "setupBounceBack s = setupClonedSlides ''bounce'' s"

text \<open>
  The last statement of \<open>setupSlides()\<close>, the same in every version of the class: clones are
  set up only when there are more slides than \<open>slidesToShow\<close>.
\<close>

definition setupSlides_clones :: "slider_instance \<Rightarrow> error + slider_instance" where
  "setupSlides_clones s =
     (let opts = this_currentOptions s
      in if (infinite opts \<or> bounceBack opts) \<and> this_totalSlides s > slidesToShow opts
         then if infinite opts then setupTrueInfinite_dynamic s
              else if bounceBack opts then setupBounceBack s
              else Inr s
         else Inr s)"

text \<open>\<open>addClonesAtEnd()\<close>.\<close>

definition addClonesAtEnd :: "layout \<Rightarrow> slider_instance \<Rightarrow> error + slider_instance" where
  "addClonesAtEnd L s =
     (case clone_loop
             (\<lambda>i. clone_slide (this_slides s) [''cloned'', ''infinite-clone''] True (Some i))
             True [0..this_totalSlides s - 1] (next_nid s) (this_children s) of
        Inl e \<Rightarrow> Inl e
      | Inr (fresh1, children1) \<Rightarrow>
          Inr (calculateSlidePositions L
                 (s\<lparr>this_children := children1, next_nid := fresh1,
                    this_allSlides := Some children1\<rparr>)))"

text \<open>
  The loop of \<open>addClonesAtStart()\<close> over \<open>i = totalSlides - 1, ..., 0\<close>: each clone is put
  first and its measured width plus the gap \<open>g\<close> added to \<open>addedWidth\<close>.
\<close>

fun addClonesAtStart_loop ::
  "layout \<Rightarrow> real \<Rightarrow> slide_node list \<Rightarrow> int list \<Rightarrow> nat \<Rightarrow> slide_node list \<Rightarrow> real
     \<Rightarrow> error + (nat \<times> slide_node list \<times> real)" where
  "addClonesAtStart_loop L g sl [] fresh children addedWidth = Inr (fresh, children, addedWidth)"
| "addClonesAtStart_loop L g sl (i # is) fresh children addedWidth =
     (case clone_slide sl [''cloned'', ''infinite-clone''] True (Some i) fresh of
        Inl e \<Rightarrow> Inl e
      | Inr clone \<Rightarrow>
          let children1 = clone # children
          in addClonesAtStart_loop L g sl is (Suc fresh) children1
               (addedWidth + (node_offsetWidth L children1 clone + g)))"

definition addClonesAtStart :: "layout \<Rightarrow> slider_instance \<Rightarrow> error + slider_instance" where
  "addClonesAtStart L s =
     (let currentScrollLeft = this_scrollLeft s
      in case addClonesAtStart_loop L (gap (this_currentOptions s)) (this_slides s)
                (rev [0..this_totalSlides s - 1]) (next_nid s) (this_children s) 0 of
           Inl e \<Rightarrow> Inl e
         | Inr (fresh1, children1, addedWidth) \<Rightarrow>
             Inr (calculateSlidePositions L
                    (s\<lparr>this_children := children1, next_nid := fresh1,
                       this_allSlides := Some children1,
                       this_scrollLeft := currentScrollLeft + addedWidth\<rparr>)))"

text \<open>
  The removal loop of \<open>cleanupClonesForAutoplay()\<close>: \<open>clone.offsetLeft\<close> is read from the
  track as it is after the removals before it.
\<close>

fun autoplay_remove_loop ::
  "layout \<Rightarrow> real \<Rightarrow> real \<Rightarrow> slide_node list \<Rightarrow> slide_node list \<Rightarrow> real
     \<Rightarrow> slide_node list \<times> real" where
  "autoplay_remove_loop L g scrollLeft0 [] children scrollAdjustment = (children, scrollAdjustment)"
| "autoplay_remove_loop L g scrollLeft0 (clone # rest) children scrollAdjustment =
     (let scrollAdjustment1 =
            (if node_offsetLeft L children clone < scrollLeft0
             then scrollAdjustment + (node_offsetWidth L children clone + g)
             else scrollAdjustment)
      in autoplay_remove_loop L g scrollLeft0 rest
           (filter (\<lambda>n. nid n \<noteq> nid clone) children) scrollAdjustment1)"

text \<open>
  The clones that \<open>cleanupClonesForAutoplay()\<close> collects in \<open>clonesToRemove\<close>: those that lie
  completely outside the viewport widened by \<open>keepBuffer\<close> on each side.
\<close>

definition clonesToRemove_autoplay :: "layout \<Rightarrow> slider_instance \<Rightarrow> slide_node list" where
  "clonesToRemove_autoplay L s =
     (let clones = infinite_clones (this_children s);
          scrollLeft0 = this_scrollLeft s;
          containerWidth = container_offsetWidth L;
          keepBuffer = containerWidth * 2
      in filter (\<lambda>clone.
                  let cloneLeft = node_offsetLeft L (this_children s) clone;
                      cloneRight = cloneLeft + node_offsetWidth L (this_children s) clone;
                      viewportLeft = scrollLeft0 - keepBuffer;
                      viewportRight = scrollLeft0 + containerWidth + keepBuffer
                  in cloneRight < viewportLeft \<or> cloneLeft > viewportRight) clones)"

text \<open>
  Its \<open>sort\<close>: the comparator \<open>distanceB - distanceA\<close> orders by descending distance from
  the centre of the viewport; the sort is stable.
\<close>

definition farthest_first :: "layout \<Rightarrow> slider_instance \<Rightarrow> slide_node list \<Rightarrow> slide_node list" where
  "farthest_first L s clonesToRemove =
     sort_key (\<lambda>a. - \<bar>(node_offsetLeft L (this_children s) a
                           + node_offsetWidth L (this_children s) a / 2)
                         - (this_scrollLeft s + container_offsetWidth L / 2)\<bar>) clonesToRemove"

text \<open>\<open>cleanupClonesForAutoplay()\<close>.\<close>

definition cleanupClonesForAutoplay :: "layout \<Rightarrow> slider_instance \<Rightarrow> slider_instance" where
  "cleanupClonesForAutoplay L s =
     (let clones = infinite_clones (this_children s);
          maxAllowedClones = this_totalSlides s * 4
      in if int (length clones) \<le> maxAllowedClones then s
         else
           let scrollLeft0 = this_scrollLeft s;
               clonesToRemove = clonesToRemove_autoplay L s;
               sorted = farthest_first L s clonesToRemove;
               maxToRemove = max 0 (int (length clonesToRemove) - this_totalSlides s);
               (children1, scrollAdjustment) =
                 autoplay_remove_loop L (gap (this_currentOptions s)) scrollLeft0
                   (take (nat (min (int (length clonesToRemove)) maxToRemove)) sorted)
                   (this_children s) 0;
               s1 = s\<lparr>this_children := children1\<rparr>;
               s2 = (if scrollAdjustment > 0
                     then s1\<lparr>this_scrollLeft := scrollLeft0 - scrollAdjustment\<rparr> else s1)
           in if length clonesToRemove > 0
              then calculateSlidePositions L (s2\<lparr>this_allSlides := Some (this_children s2)\<rparr>)
              else s2)"

text \<open>
  The removal loop of the manual branch of \<open>cleanupDistantClones()\<close>, over the collected
  \<open>{slide, position}\<close> entries; the local \<open>scrollLeft\<close> follows \<open>track.scrollLeft\<close>.
\<close>

fun manual_remove_loop ::
  "layout \<Rightarrow> real \<Rightarrow> (slide_node \<times> real) list \<Rightarrow> slide_node list \<Rightarrow> real
     \<Rightarrow> slide_node list \<times> real" where
  "manual_remove_loop L g [] children scrollLeft0 = (children, scrollLeft0)"
| "manual_remove_loop L g (cloneInfo # rest) children scrollLeft0 =
     (let scrollLeft1 =
            (if snd cloneInfo < scrollLeft0
             then scrollLeft0 - (node_offsetWidth L children (fst cloneInfo) + g)
             else scrollLeft0)
      in manual_remove_loop L g rest
           (filter (\<lambda>n. nid n \<noteq> nid (fst cloneInfo)) children) scrollLeft1)"

text \<open>
  \<open>cleanupDistantClones()\<close>. In the manual branch \<open>this.allSlides.forEach\<close> raises a TypeError
  when \<open>allSlides\<close> was never set, and a slide without an entry in \<open>slidePositions\<close> has a
  \<open>NaN\<close> distance and is not collected.
\<close>

definition cleanupDistantClones :: "layout \<Rightarrow> slider_instance \<Rightarrow> error + slider_instance" where
  "cleanupDistantClones L s =
     (if autoplay (this_currentOptions s) then Inr (cleanupClonesForAutoplay L s)
      else
        case this_allSlides s of
          None \<Rightarrow> Inl TypeError
        | Some allSl \<Rightarrow>
            let scrollLeft0 = this_scrollLeft s;
                containerWidth = container_offsetWidth L;
                cleanupDistance = containerWidth * 4;
                clonesToRemove =
                  concat (map (\<lambda>(index, slide).
                            if has_class ''infinite-clone'' slide
                            then (case at_index (this_slidePositions s) (int index) of
                                    None \<Rightarrow> []
                                  | Some slidePosition \<Rightarrow>
                                      if \<bar>slidePosition - scrollLeft0\<bar> > cleanupDistance
                                      then [(slide, slidePosition)] else [])
                            else [])
                          (zip [0..<length allSl] allSl));
                sorted = sort_key (\<lambda>a. - \<bar>snd a - scrollLeft0\<bar>) clonesToRemove;
                minClonesPerSide = this_totalSlides s;
                maxToRemove = max 0 (int (length clonesToRemove) - (minClonesPerSide * 2));
                removed = take (nat (min (int (length clonesToRemove)) maxToRemove)) sorted;
                (children1, scrollLeft1) =
                  manual_remove_loop L (gap (this_currentOptions s)) removed
                    (this_children s) scrollLeft0;
                s1 = s\<lparr>this_children := children1, this_scrollLeft := scrollLeft1\<rparr>
            in if length removed > 0
               then Inr (calculateSlidePositions L (s1\<lparr>this_allSlides := Some children1\<rparr>))
               else Inr s1)"

text \<open>\<open>handleInfiniteScroll()\<close> of the class of version 0.0.1, which grows and shrinks the clones.\<close>

definition handleInfiniteScroll_dynamic :: "layout \<Rightarrow> slider_instance \<Rightarrow> error + slider_instance" where
  "handleInfiniteScroll_dynamic L s =
     (let scrollLeft0 = this_scrollLeft s;
          containerWidth = container_offsetWidth L;
          addBuffer = containerWidth;
          maxClones = this_totalSlides s * 3;
          trackWidth = track_scrollWidth L (this_children s);
          distanceFromEnd = trackWidth - (scrollLeft0 + containerWidth)
      in case (if distanceFromEnd < addBuffer
                  \<and> int (length (infinite_clones (this_children s))) < maxClones
               then addClonesAtEnd L s else Inr s) of
           Inl e \<Rightarrow> Inl e
         | Inr s1 \<Rightarrow>
             (case (if scrollLeft0 < addBuffer
                       \<and> int (length (infinite_clones (this_children s1))) < maxClones
                    then addClonesAtStart L s1 else Inr s1) of
                Inl e \<Rightarrow> Inl e
              | Inr s2 \<Rightarrow> cleanupDistantClones L s2))"

text \<open>
  \<open>handleBounceBackScroll()\<close> and \<open>handleScrollEnd()\<close>. An assignment of \<open>undefined\<close> to
  \<open>track.scrollLeft\<close> is one of \<open>NaN\<close>, which the host takes as 0; a zero slide width makes the
  target index infinite or \<open>NaN\<close> and is not modelled.
\<close>

definition handleBounceBackScroll :: "layout \<Rightarrow> slider_instance \<Rightarrow> error + slider_instance" where
  "handleBounceBackScroll L s =
     (case this_slides s of
        [] \<Rightarrow> Inl TypeError
      | s0 # _ \<Rightarrow>
          let cloneCount = max (slidesToShow (this_currentOptions s)) 2;
              scrollLeft0 = this_scrollLeft s;
              slideWidth = node_offsetWidth L (this_children s) s0 + gap (this_currentOptions s);
              assign = (\<lambda>p. s\<lparr>this_scrollLeft := (case p of None \<Rightarrow> 0 | Some x \<Rightarrow> x)\<rparr>)
          in if scrollLeft0 < real_of_int cloneCount * slideWidth / 2
             then
               if slideWidth = 0 then Inl Unmodelled
               else
                 let targetIndex = cloneCount + this_totalSlides s
                                     - (cloneCount - \<lfloor>scrollLeft0 / slideWidth\<rfloor>)
                 in Inr (assign (at_index (this_slidePositions s) targetIndex))
             else if (case at_index (this_slidePositions s) (cloneCount + this_totalSlides s - 1) of
                        None \<Rightarrow> False
                      | Some p \<Rightarrow> scrollLeft0 > p)
             then
               (case js_rem (this_currentSlide s) (this_totalSlides s) of
                  None \<Rightarrow> Inr (assign None)
                | Some r \<Rightarrow> Inr (assign (at_index (this_slidePositions s) (cloneCount + r))))
             else Inr s)"

definition handleScrollEnd :: "layout \<Rightarrow> slider_instance \<Rightarrow> error + slider_instance" where
  "handleScrollEnd L s =
     (if bounceBack (this_currentOptions s) then handleBounceBackScroll L s
      else if infinite (this_currentOptions s) then handleInfiniteScroll_dynamic L s
      else Inr s)"

text \<open>
  The interval callback that \<open>startAutoplay()\<close> of version 0.0.1 installs in infinite mode.
\<close>

definition autoplay_callback :: "layout \<Rightarrow> slider_instance \<Rightarrow> error + slider_instance" where
  "autoplay_callback L s =
     (if \<not> this_isScrolling s
      then
        (case this_slides s of
           [] \<Rightarrow> Inl TypeError
         | s0 # _ \<Rightarrow>
             let slideWidth = node_offsetWidth L (this_children s) s0 + gap (this_currentOptions s);
                 scrollAmount = slideWidth * real_of_int (slidesToScroll (this_currentOptions s));
                 s1 = s\<lparr>this_scrollTo_calls := this_scrollTo_calls s
                         @ [\<lparr>left = Some (this_scrollLeft s + scrollAmount), behavior = ''smooth''\<rparr>]\<rparr>
             in Inr (cleanupClonesForAutoplay L s1))
      else Inr s)"

text \<open>
  One autoplay tick: the interval callback, then the host scrolling the track to some
  offset \<open>x\<close>, then \<open>handleScrollEnd()\<close>, which the scroll listener runs once the scrolling has
  settled. The other bookkeeping of the scroll listener (\<open>isScrolling\<close>, pausing and resuming
  the timer, the \<open>center\<close> class) is left out. A run of ticks is given by the offsets the
  host scrolls to.
\<close>

definition autoplay_tick :: "layout \<Rightarrow> real \<Rightarrow> slider_instance \<Rightarrow> error + slider_instance" where
  "autoplay_tick L x s =
     (case autoplay_callback L s of
        Inl e \<Rightarrow> Inl e
      | Inr s1 \<Rightarrow> handleScrollEnd L (s1\<lparr>this_scrollLeft := x\<rparr>))"

fun autoplay_ticks :: "layout \<Rightarrow> real list \<Rightarrow> slider_instance \<Rightarrow> error + slider_instance" where
  "autoplay_ticks L [] s = Inr s"
| "autoplay_ticks L (x # xs) s =
     (case autoplay_tick L x s of Inl e \<Rightarrow> Inl e | Inr s1 \<Rightarrow> autoplay_ticks L xs s1)"

text \<open>
  A flex row as layout for the scenarios: every child has width \<open>w\<close> and the children follow
  each other with gap \<open>g\<close>; a node that is not a child measures 0.
\<close>

definition flex_row :: "real \<Rightarrow> real \<Rightarrow> real \<Rightarrow> layout" where
  "flex_row cw w g =
     \<lparr>node_offsetLeft = (\<lambda>children n.
          if nid n \<in> set (map nid children)
          then (w + g) * real (length (takeWhile (\<lambda>m. nid m \<noteq> nid n) children)) else 0),
      node_offsetWidth = (\<lambda>children n. if nid n \<in> set (map nid children) then w else 0),
      track_scrollWidth = (\<lambda>children. (w + g) * real (length children) - g),
      container_offsetWidth = cw,
      track_paddingLeft = 0\<rparr>"

text \<open>
  \<open>same_slider s s'\<close>: the slides, their number and the options of \<open>s\<close> are those of \<open>s'\<close>;
  no maintenance step changes them.
\<close>

definition same_slider :: "slider_instance \<Rightarrow> slider_instance \<Rightarrow> bool" where
  "same_slider s s' \<longleftrightarrow> this_slides s' = this_slides s \<and> this_totalSlides s' = this_totalSlides s
      \<and> this_currentOptions s' = this_currentOptions s"

section \<open>Theorems\<close>

subsection \<open>Properties of \<open>Object.assign\<close>\<close>

text \<open>
  The key \<open>__proto__\<close> in a source: an object or \<open>null\<close> becomes the prototype of the
  target, any other value is ignored; once the prototype is \<open>null\<close>, or has an own property
  of that name, the accessor is out of reach and the key becomes an own property.
\<close>

lemma Object_assign_proto_cases:
  "Object_assign empty_object [JObj [(''a'', JNum 1), (''__proto__'', JObj [(''x'', JNum 1)])]]
     = \<lparr>own = [(''a'', JNum 1)], proto = Some (JObj [(''x'', JNum 1)])\<rparr>"
  "Object_assign empty_object [JObj [(''__proto__'', JNum 1), (''a'', JNum 1)]]
     = \<lparr>own = [(''a'', JNum 1)], proto = None\<rparr>"
  "Object_assign empty_object [JObj [(''__proto__'', JNull)], JObj [(''__proto__'', JObj [])]]
     = \<lparr>own = [(''__proto__'', JObj [])], proto = Some JNull\<rparr>"
  "Object_assign empty_object
     [JObj [(''__proto__'', JObj [(''__proto__'', JNum 1)])], JObj [(''__proto__'', JNum 2)]]
     = \<lparr>own = [(''__proto__'', JNum 2)], proto = Some (JObj [(''__proto__'', JNum 1)])\<rparr>"
  "Object_assign \<lparr>own = [(''__proto__'', JNum 2)], proto = None\<rparr> [JObj [(''__proto__'', JNull)]]
     = \<lparr>own = [(''__proto__'', JNull)], proto = None\<rparr>"
  by (simp_all add: Object_assign_def set_props_def set_prop_def reaches_proto_setter_def
      empty_object_def)










subsection \<open>C3: slide width and leading padding\<close>

text \<open>
  C3, as stated, at a negative minimum width. With \<open>containerWidth = 1\<close>, \<open>slidesToShow = 2\<close>,
  \<open>gap = 10\<close> and \<open>minSlideWidth = -1\<close> the base width is \<open>-9/2\<close>, which is below the
  parsed minimum \<open>-1\<close>, and the minimum is not \<open>0\<close>; the claim says the width is clamped up
  to \<open>-1\<close>, the code returns the base width \<open>-9/2\<close>, because it clamps only when the parsed
  minimum is positive.
\<close>

theorem calculateSlideWidth_negative_min_counterexample:
  "(0::real) < 1 \<and> (1::real) \<le> 2 \<and> (0::real) \<le> 10
   \<and> parseMinSlideWidth (\<lambda>s. None) (JNum (- 1)) = - 1
   \<and> (1 - 10 * (2 - 1)) / 2 < parseMinSlideWidth (\<lambda>s. None) (JNum (- 1))
   \<and> JNum (- 1) \<noteq> JNum 0
   \<and> calculateSlideWidth (\<lambda>s. None) 1 2 10 (JNum (- 1))
       = Some \<lparr>slideWidth = - 9 / 2, totalNeededWidth = 1, leftPadding = 0\<rparr>
   \<and> calculateSlideWidth (\<lambda>s. None) 1 2 10 (JNum (- 1))
       \<noteq> Some \<lparr>slideWidth = - 1, totalNeededWidth = 8, leftPadding = 0\<rparr>"
  by (simp add: calculateSlideWidth_def parseMinSlideWidth_def Let_def)

text \<open>
  C3, amended: for \<open>containerWidth > 0\<close>, \<open>slidesToShow \<ge> 1\<close>, \<open>gap \<ge> 0\<close> and every
  \<open>minSlideWidth\<close>, the layout computation returns the base width
  \<open>(containerWidth - gap * (slidesToShow - 1)) / slidesToShow\<close> unless the parsed minimum
  is positive and above the base width, in which case the slide width is the parsed
  minimum; in both cases
  \<open>leftPadding = max 0 ((containerWidth - (slideWidth * slidesToShow + gap * (slidesToShow - 1))) / 2)\<close>,
  and \<open>totalNeededWidth\<close> is that needed width. For 1200, 4, 24 and no minimum the result is
  282 with padding 0.
\<close>

theorem calculateSlideWidth_layout:
  fixes containerWidth slidesToShow gap :: real and minSlideWidth :: jsval
  assumes "0 < containerWidth" and "1 \<le> slidesToShow" and "0 \<le> gap"
  shows "\<exists>r. calculateSlideWidth pf containerWidth slidesToShow gap minSlideWidth = Some r
    \<and> slideWidth r =
        (if 0 < parseMinSlideWidth pf minSlideWidth
            \<and> (containerWidth - gap * (slidesToShow - 1)) / slidesToShow
                < parseMinSlideWidth pf minSlideWidth
         then parseMinSlideWidth pf minSlideWidth
         else (containerWidth - gap * (slidesToShow - 1)) / slidesToShow)
    \<and> totalNeededWidth r = slideWidth r * slidesToShow + gap * (slidesToShow - 1)
    \<and> leftPadding r
        = max 0 ((containerWidth - (slideWidth r * slidesToShow + gap * (slidesToShow - 1))) / 2)
    \<and> calculateSlideWidth pf 1200 4 24 (JNum 0)
        = Some \<lparr>slideWidth = 282, totalNeededWidth = 1200, leftPadding = 0\<rparr>
    \<and> calculateSlideWidth pf 1200 4 24 JUndefined
        = Some \<lparr>slideWidth = 282, totalNeededWidth = 1200, leftPadding = 0\<rparr>"
proof -
  from assms(2) have nz: "slidesToShow \<noteq> 0" by simp
  have scen: "calculateSlideWidth pf 1200 4 24 (JNum 0)
        = Some \<lparr>slideWidth = 282, totalNeededWidth = 1200, leftPadding = 0\<rparr>"
       "calculateSlideWidth pf 1200 4 24 JUndefined
        = Some \<lparr>slideWidth = 282, totalNeededWidth = 1200, leftPadding = 0\<rparr>"
    by (simp_all add: calculateSlideWidth_def parseMinSlideWidth_def Let_def)
  show ?thesis
    using nz scen
    by (simp add: calculateSlideWidth_def Let_def mult.commute)
qed

theorem calculateSlideWidth_layout_witness:
  "(0::real) < 300 \<and> (1::real) \<le> 3 \<and> (0::real) \<le> 24
   \<and> (\<exists>r. calculateSlideWidth (\<lambda>s. None) 300 3 24 (JNum 200) = Some r
     \<and> slideWidth r = 200 \<and> totalNeededWidth r = 648 \<and> leftPadding r = 0)"
proof -
  have h: "(0::real) < 300" "(1::real) \<le> 3" "(0::real) \<le> 24" by simp_all
  from calculateSlideWidth_layout [OF h, of "\<lambda>s. None" "JNum 200"]
  obtain r where r: "calculateSlideWidth (\<lambda>s. None) 300 3 24 (JNum 200) = Some r"
    and w: "slideWidth r = 200"
    and t: "totalNeededWidth r = slideWidth r * 3 + 24 * (3 - 1)"
    and l: "leftPadding r = max 0 ((300 - (slideWidth r * 3 + 24 * (3 - 1))) / 2)"
    by (auto simp: parseMinSlideWidth_def)
  from w t l have "totalNeededWidth r = 648" "leftPadding r = 0" by simp_all
  with r w h show ?thesis by blast
qed

subsection \<open>C9: building the configuration\<close>




subsection \<open>C4: the responsive cascade\<close>

lemma cascade_foldl_filter:
  "cascade w cur bs
     = foldl (\<lambda>c b. Object_assign c [snd b]) cur (filter (\<lambda>b. w \<le> fst b) bs)"
  by (induction bs arbitrary: cur) auto

lemma cascade_filter_idem:
  "cascade w cur (filter (\<lambda>b. w \<le> fst b) bs) = cascade w cur bs"
  by (induction bs arbitrary: cur) auto

lemma filter_sortedBreakpoints:
  "filter P (sortedBreakpoints bs) = sortedBreakpoints (filter P bs)"
  by (simp add: sortedBreakpoints_def filter_sort)

lemma sortedBreakpoints_descending:
  "sorted_wrt (\<lambda>a b. fst b \<le> fst a) (sortedBreakpoints bs)"
proof -
  have "sorted (map (\<lambda>b. - fst b) (sortedBreakpoints bs))"
    by (simp add: sortedBreakpoints_def)
  then show ?thesis by (simp add: sorted_map)
qed

text \<open>
  C4: for an options object with a breakpoint list \<open>bps\<close> and a viewport width \<open>W\<close>, the full
  cascade (all breakpoints sorted by descending threshold, each one with \<open>W \<le> threshold\<close>
  assigned over the previous settings) returns the fold of the settings of only those
  breakpoints whose threshold is at least \<open>W\<close>, taken in descending threshold order; the
  same result comes from running the cascade on that subset alone, and any other list with
  the same breakpoints at or above \<open>W\<close> gives the same result: breakpoints below \<open>W\<close> never
  matter.
\<close>

theorem applyResponsiveSettings_subset_fold:
  assumes "responsive_of options = Inr bps"
  shows "applyResponsiveSettings W options
           = Inr (foldl (\<lambda>cur b. Object_assign cur [snd b]) (Object_assign empty_object [JObj options])
                    (sortedBreakpoints (filter (\<lambda>b. W \<le> fst b) bps)))
     \<and> applyResponsiveSettings W options
           = Inr (cascade W (Object_assign empty_object [JObj options])
                    (sortedBreakpoints (filter (\<lambda>b. W \<le> fst b) bps)))
     \<and> sorted_wrt (\<lambda>a b. fst b \<le> fst a) (sortedBreakpoints (filter (\<lambda>b. W \<le> fst b) bps))
     \<and> (\<forall>bps'. filter (\<lambda>b. W \<le> fst b) bps' = filter (\<lambda>b. W \<le> fst b) bps \<longrightarrow>
           cascade W (Object_assign empty_object [JObj options]) (sortedBreakpoints bps')
             = cascade W (Object_assign empty_object [JObj options]) (sortedBreakpoints bps))"
proof -
  let ?keep = "\<lambda>b. W \<le> fst (b :: real \<times> jsval)"
  let ?base = "Object_assign empty_object [JObj options]"
  have run: "applyResponsiveSettings W options = Inr (cascade W ?base (sortedBreakpoints bps))"
    using assms by (simp add: applyResponsiveSettings_def)
  have sub: "cascade W ?base (sortedBreakpoints bs)
               = cascade W ?base (sortedBreakpoints (filter ?keep bs))" for bs
  proof -
    have "cascade W ?base (sortedBreakpoints bs)
            = cascade W ?base (filter ?keep (sortedBreakpoints bs))"
      by (simp only: cascade_filter_idem)
    then show ?thesis by (simp only: filter_sortedBreakpoints)
  qed
  have fold: "cascade W ?base (sortedBreakpoints (filter ?keep bps))
                = foldl (\<lambda>cur b. Object_assign cur [snd b]) ?base
                    (sortedBreakpoints (filter ?keep bps))"
  proof -
    have "filter ?keep (sortedBreakpoints (filter ?keep bps))
            = sortedBreakpoints (filter ?keep bps)"
      by (simp add: filter_sortedBreakpoints)
    then show ?thesis by (simp add: cascade_foldl_filter)
  qed
  have other: "cascade W ?base (sortedBreakpoints bps') = cascade W ?base (sortedBreakpoints bps)"
    if "filter ?keep bps' = filter ?keep bps" for bps'
    using sub [of bps'] sub [of bps] that by simp
  have r2: "applyResponsiveSettings W options
              = Inr (cascade W ?base (sortedBreakpoints (filter ?keep bps)))"
    using run sub [of bps] by (simp only:)
  have r1: "applyResponsiveSettings W options
              = Inr (foldl (\<lambda>cur b. Object_assign cur [snd b]) ?base
                       (sortedBreakpoints (filter ?keep bps)))"
    using r2 fold by (simp only:)
  have r3: "sorted_wrt (\<lambda>a b. fst b \<le> fst a) (sortedBreakpoints (filter ?keep bps))"
    by (rule sortedBreakpoints_descending)
  from r1 r2 r3 other show ?thesis by blast
qed

theorem applyResponsiveSettings_subset_fold_witness:
  "responsive_of [(''slidesToShow'', JNum 4),
                  (''responsive'', JArr [breakpoint_entry 768 1, breakpoint_entry 1200 3])]
     = Inr [(768, JObj [(''slidesToShow'', JNum 1)]), (1200, JObj [(''slidesToShow'', JNum 3)])]
   \<and> applyResponsiveSettings 1000
        [(''slidesToShow'', JNum 4),
         (''responsive'', JArr [breakpoint_entry 768 1, breakpoint_entry 1200 3])]
     = Inr \<lparr>own = [(''slidesToShow'', JNum 3),
                   (''responsive'', JArr [breakpoint_entry 768 1, breakpoint_entry 1200 3])],
            proto = None\<rparr>"
proof -
  let ?opts = "[(''slidesToShow'', JNum 4),
                (''responsive'', JArr [breakpoint_entry 768 1, breakpoint_entry 1200 3])]"
  have h: "responsive_of ?opts
     = Inr [(768, JObj [(''slidesToShow'', JNum 1)]), (1200, JObj [(''slidesToShow'', JNum 3)])]"
    by (simp add: responsive_of_def breakpoint_entry_def)
  have "applyResponsiveSettings 1000 ?opts
     = Inr (foldl (\<lambda>cur b. Object_assign cur [snd b]) (Object_assign empty_object [JObj ?opts])
              (sortedBreakpoints (filter (\<lambda>b. 1000 \<le> fst b)
                 [(768, JObj [(''slidesToShow'', JNum 1)]),
                  (1200, JObj [(''slidesToShow'', JNum 3)])])))"
    using applyResponsiveSettings_subset_fold [OF h, of 1000] by blast
  then have "applyResponsiveSettings 1000 ?opts
     = Inr \<lparr>own = [(''slidesToShow'', JNum 3),
                   (''responsive'', JArr [breakpoint_entry 768 1, breakpoint_entry 1200 3])],
            proto = None\<rparr>"
    by (simp add: sortedBreakpoints_def Object_assign_def set_props_def set_prop_def
        empty_object_def)
  with h show ?thesis by blast
qed

subsection \<open>Navigation\<close>

lemma goToSlide_in_range:
  assumes "\<not> infinite (currentOptions ctx)" and "0 \<le> i" and "i < totalSlides ctx"
    and "centerMode (currentOptions ctx) \<longrightarrow> slides ctx \<noteq> []"
  shows "\<exists>l. goToSlide ctx i = Inr ((scrollTo l ''smooth'' ctx)\<lparr>currentSlide := i\<rparr>)"
  using assms by (cases "slides ctx") (auto simp: goToSlide_def Let_def)

lemma goToSlide_out_of_range:
  assumes "i < 0 \<or> totalSlides ctx \<le> i"
  shows "goToSlide ctx i = Inr ctx"
  using assms by (auto simp: goToSlide_def)

lemma scrollTo_frame [simp]:
  "currentOptions (scrollTo l b ctx) = currentOptions ctx"
  "container (scrollTo l b ctx) = container ctx"
  "slides (scrollTo l b ctx) = slides ctx"
  "totalSlides (scrollTo l b ctx) = totalSlides ctx"
  "currentSlide (scrollTo l b ctx) = currentSlide ctx"
  by (simp_all add: scrollTo_def)

lemma next_plain:
  assumes "\<not> infinite (currentOptions ctx)" and "\<not> bounceBack (currentOptions ctx)"
    and "getActualSlidesToShow (container ctx) (slides ctx) (gap (currentOptions ctx))
           (slidesToShow (currentOptions ctx)) = Inr a"
    and "1 \<le> a" and "0 \<le> slidesToScroll (currentOptions ctx)"
    and "0 \<le> currentSlide ctx" and "currentSlide ctx \<le> totalSlides ctx - a"
    and "centerMode (currentOptions ctx) \<longrightarrow> slides ctx \<noteq> []"
  shows "\<exists>l. next ctx = Inr ((scrollTo l ''smooth'' ctx)
            \<lparr>currentSlide := min (currentSlide ctx + slidesToScroll (currentOptions ctx))
                                (totalSlides ctx - a)\<rparr>)"
proof -
  let ?n = "min (currentSlide ctx + slidesToScroll (currentOptions ctx)) (totalSlides ctx - a)"
  have nx: "next ctx = goToSlide ctx ?n"
    using assms(1,2,3) by (simp add: next_def Let_def)
  have "0 \<le> ?n" "?n < totalSlides ctx" using assms(4-7) by auto
  from goToSlide_in_range [OF assms(1) this assms(8)] nx show ?thesis by simp
qed

lemma prev_plain:
  assumes "\<not> infinite (currentOptions ctx)" and "\<not> bounceBack (currentOptions ctx)"
    and "0 \<le> slidesToScroll (currentOptions ctx)"
    and "0 \<le> currentSlide ctx" and "currentSlide ctx < totalSlides ctx"
    and "centerMode (currentOptions ctx) \<longrightarrow> slides ctx \<noteq> []"
  shows "\<exists>l. prev ctx = Inr ((scrollTo l ''smooth'' ctx)
            \<lparr>currentSlide := max (currentSlide ctx - slidesToScroll (currentOptions ctx)) 0\<rparr>)"
proof -
  let ?p = "max (currentSlide ctx - slidesToScroll (currentOptions ctx)) 0"
  have pv: "prev ctx = goToSlide ctx ?p"
    using assms(1,2) by (simp add: prev_def Let_def)
  have "0 \<le> ?p" "?p < totalSlides ctx" using assms(3-5) by auto
  from goToSlide_in_range [OF assms(1) this assms(6)] pv show ?thesis by simp
qed

text \<open>
  C5, as stated, where fewer slides fit than are configured. Five slides of width 200 in a
  container of width 300 with gap 24, \<open>slidesToShow = 3\<close>, \<open>slidesToScroll = 1\<close>, plain mode,
  current index 2, which is \<open>totalSlides - slidesToShow\<close>: one slide fits, \<open>next()\<close> clamps at
  \<open>totalSlides - 1 = 4\<close> and moves to index 3, outside \<open>[0, totalSlides - slidesToShow]\<close>.
  And with two slides of width 384 in a container of width 1200, where three would fit,
  \<open>next()\<close> computes the target \<open>-1\<close>, which \<open>goToSlide\<close> rejects: the index stays 0, while the
  interval \<open>[0, totalSlides - slidesToShow] = [0, -1]\<close> is empty.
\<close>

theorem next_plain_leaves_configured_range_counterexample:
  "\<not> infinite (currentOptions (laid_out plain_options 300 200 5 2))
   \<and> \<not> bounceBack (currentOptions (laid_out plain_options 300 200 5 2))
   \<and> totalSlides (laid_out plain_options 300 200 5 2) = 5
   \<and> slidesToShow (currentOptions (laid_out plain_options 300 200 5 2)) = 3
   \<and> currentSlide (laid_out plain_options 300 200 5 2) = 2
   \<and> map_sum id currentSlide (next (laid_out plain_options 300 200 5 2)) = Inr 3
   \<and> \<not> (3 \<le> totalSlides (laid_out plain_options 300 200 5 2)
                - slidesToShow (currentOptions (laid_out plain_options 300 200 5 2)))
   \<and> totalSlides (laid_out plain_options 1200 384 2 0) = 2
   \<and> slidesToShow (currentOptions (laid_out plain_options 1200 384 2 0)) = 3
   \<and> map_sum id currentSlide (next (laid_out plain_options 1200 384 2 0)) = Inr 0
   \<and> \<not> (0 \<le> totalSlides (laid_out plain_options 1200 384 2 0)
                - slidesToShow (currentOptions (laid_out plain_options 1200 384 2 0)))"
  by (simp add: laid_out_def plain_options_def next_def getActualSlidesToShow_def goToSlide_def
      scrollTo_def at_index_def Let_def upt_conv_Cons)

text \<open>
  C5, amended: in plain mode let \<open>a\<close> be the result of \<open>getActualSlidesToShow\<close>, the smaller of
  \<open>slidesToShow\<close> and the number of slides that fit the container, with \<open>a \<ge> 1\<close>, and let
  \<open>slidesToScroll \<ge> 0\<close>. From a current index in \<open>[0, totalSlides - a]\<close>, \<open>next()\<close> sets
  the index to \<open>min (currentSlide + slidesToScroll) (totalSlides - a)\<close> and \<open>prev()\<close> sets it to
  \<open>max (currentSlide - slidesToScroll) 0\<close>, so the index stays in \<open>[0, totalSlides - a]\<close>;
  \<open>a \<le> slidesToShow\<close>. With 5 slides, \<open>slidesToScroll = 1\<close> and three slides fitting
  (\<open>a = 3\<close>), three calls of \<open>next()\<close> from index 0 give 1, 2, 2.
\<close>

theorem next_prev_plain_clamped:
  assumes "\<not> infinite (currentOptions ctx)" and "\<not> bounceBack (currentOptions ctx)"
    and "getActualSlidesToShow (container ctx) (slides ctx) (gap (currentOptions ctx))
           (slidesToShow (currentOptions ctx)) = Inr a"
    and "1 \<le> a" and "0 \<le> slidesToScroll (currentOptions ctx)"
    and "0 \<le> currentSlide ctx" and "currentSlide ctx \<le> totalSlides ctx - a"
    and "centerMode (currentOptions ctx) \<longrightarrow> slides ctx \<noteq> []"
  shows "(\<exists>c. next ctx = Inr c
            \<and> currentSlide c = min (currentSlide ctx + slidesToScroll (currentOptions ctx))
                                   (totalSlides ctx - a)
            \<and> 0 \<le> currentSlide c \<and> currentSlide c \<le> totalSlides ctx - a)
       \<and> (\<exists>c. prev ctx = Inr c
            \<and> currentSlide c = max (currentSlide ctx - slidesToScroll (currentOptions ctx)) 0
            \<and> 0 \<le> currentSlide c \<and> currentSlide c \<le> totalSlides ctx - a)
       \<and> a \<le> slidesToShow (currentOptions ctx)
       \<and> (totalSlides ctx = 5 \<and> a = 3 \<and> slidesToScroll (currentOptions ctx) = 1
            \<and> currentSlide ctx = 0 \<longrightarrow>
           (\<exists>c1 c2 c3. next ctx = Inr c1 \<and> next c1 = Inr c2 \<and> next c2 = Inr c3
              \<and> currentSlide c1 = 1 \<and> currentSlide c2 = 2 \<and> currentSlide c3 = 2))"
proof -
  let ?s = "slidesToScroll (currentOptions ctx)"
  from next_plain [OF assms] obtain l where
    n: "next ctx = Inr ((scrollTo l ''smooth'' ctx)
          \<lparr>currentSlide := min (currentSlide ctx + ?s) (totalSlides ctx - a)\<rparr>)" ..
  have lt: "currentSlide ctx < totalSlides ctx" using assms(4,7) by simp
  from prev_plain [OF assms(1,2,5,6) lt assms(8)] obtain l' where
    p: "prev ctx = Inr ((scrollTo l' ''smooth'' ctx)
          \<lparr>currentSlide := max (currentSlide ctx - ?s) 0\<rparr>)" ..
  have A: "\<exists>c. next ctx = Inr c
            \<and> currentSlide c = min (currentSlide ctx + ?s) (totalSlides ctx - a)
            \<and> 0 \<le> currentSlide c \<and> currentSlide c \<le> totalSlides ctx - a"
    using n assms(5,6,7) by auto
  have B: "\<exists>c. prev ctx = Inr c
            \<and> currentSlide c = max (currentSlide ctx - ?s) 0
            \<and> 0 \<le> currentSlide c \<and> currentSlide c \<le> totalSlides ctx - a"
    using p assms(5,6,7) by auto
  have C: "a \<le> slidesToShow (currentOptions ctx)"
    using assms(3) by (auto simp: getActualSlidesToShow_def Let_def split: list.splits if_splits)
  have D: "\<exists>c1 c2 c3. next ctx = Inr c1 \<and> next c1 = Inr c2 \<and> next c2 = Inr c3
              \<and> currentSlide c1 = 1 \<and> currentSlide c2 = 2 \<and> currentSlide c3 = 2"
    if h: "totalSlides ctx = 5 \<and> a = 3 \<and> ?s = 1 \<and> currentSlide ctx = 0"
  proof -
    define c1 where "c1 = (scrollTo l ''smooth'' ctx)\<lparr>currentSlide := 1\<rparr>"
    have n1: "next ctx = Inr c1" using n h by (simp add: c1_def)
    have f1: "\<not> infinite (currentOptions c1)" "\<not> bounceBack (currentOptions c1)"
      "getActualSlidesToShow (container c1) (slides c1) (gap (currentOptions c1))
           (slidesToShow (currentOptions c1)) = Inr a"
      "1 \<le> a" "0 \<le> slidesToScroll (currentOptions c1)"
      "0 \<le> currentSlide c1" "currentSlide c1 \<le> totalSlides c1 - a"
      "centerMode (currentOptions c1) \<longrightarrow> slides c1 \<noteq> []"
      using assms h by (simp_all add: c1_def)
    from next_plain [OF f1] obtain l2 where
      n2: "next c1 = Inr ((scrollTo l2 ''smooth'' c1)
          \<lparr>currentSlide := min (currentSlide c1 + slidesToScroll (currentOptions c1))
               (totalSlides c1 - a)\<rparr>)" ..
    define c2 where "c2 = (scrollTo l2 ''smooth'' c1)\<lparr>currentSlide := 2\<rparr>"
    have n2': "next c1 = Inr c2" using n2 h by (simp add: c2_def c1_def)
    have f2: "\<not> infinite (currentOptions c2)" "\<not> bounceBack (currentOptions c2)"
      "getActualSlidesToShow (container c2) (slides c2) (gap (currentOptions c2))
           (slidesToShow (currentOptions c2)) = Inr a"
      "1 \<le> a" "0 \<le> slidesToScroll (currentOptions c2)"
      "0 \<le> currentSlide c2" "currentSlide c2 \<le> totalSlides c2 - a"
      "centerMode (currentOptions c2) \<longrightarrow> slides c2 \<noteq> []"
      using assms h by (simp_all add: c2_def c1_def)
    from next_plain [OF f2] obtain l3 where
      n3: "next c2 = Inr ((scrollTo l3 ''smooth'' c2)
          \<lparr>currentSlide := min (currentSlide c2 + slidesToScroll (currentOptions c2))
               (totalSlides c2 - a)\<rparr>)" ..
    define c3 where "c3 = (scrollTo l3 ''smooth'' c2)\<lparr>currentSlide := 2\<rparr>"
    have n3': "next c2 = Inr c3" using n3 h by (simp add: c3_def c2_def c1_def)
    have "currentSlide c1 = 1" "currentSlide c2 = 2" "currentSlide c3 = 2"
      by (simp_all add: c1_def c2_def c3_def)
    with n1 n2' n3' show ?thesis by blast
  qed
  from A B C D show ?thesis by blast
qed


theorem next_prev_plain_clamped_witness:
  "getActualSlidesToShow (container (laid_out plain_options 1200 384 5 0))
       (slides (laid_out plain_options 1200 384 5 0))
       (gap (currentOptions (laid_out plain_options 1200 384 5 0)))
       (slidesToShow (currentOptions (laid_out plain_options 1200 384 5 0))) = Inr 3
   \<and> (\<exists>c1 c2 c3. next (laid_out plain_options 1200 384 5 0) = Inr c1 \<and> next c1 = Inr c2
         \<and> next c2 = Inr c3
         \<and> currentSlide c1 = 1 \<and> currentSlide c2 = 2 \<and> currentSlide c3 = 2)"
proof -
  let ?c = "laid_out plain_options 1200 384 5 0"
  have h: "\<not> infinite (currentOptions ?c)" "\<not> bounceBack (currentOptions ?c)"
    "getActualSlidesToShow (container ?c) (slides ?c) (gap (currentOptions ?c))
       (slidesToShow (currentOptions ?c)) = Inr 3"
    "(1::int) \<le> 3" "0 \<le> slidesToScroll (currentOptions ?c)"
    "0 \<le> currentSlide ?c" "currentSlide ?c \<le> totalSlides ?c - 3"
    "centerMode (currentOptions ?c) \<longrightarrow> slides ?c \<noteq> []"
    by (simp_all add: laid_out_def plain_options_def getActualSlidesToShow_def Let_def
        upt_conv_Cons)
  have s: "totalSlides ?c = 5 \<and> (3::int) = 3 \<and> slidesToScroll (currentOptions ?c) = 1
            \<and> currentSlide ?c = 0"
    by (simp add: laid_out_def plain_options_def)
  from next_prev_plain_clamped [OF h] s h(3) show ?thesis by blast
qed

text \<open>
  C6, as stated, at a negative step. Four slides in bounce mode, \<open>slidesToScroll = -1\<close>,
  current index 0: the claim sends \<open>next()\<close> to \<open>(0 + -1) mod 4 = 3\<close>. The code computes the
  remainder of the language, \<open>(0 + -1) % 4 = -1\<close>, and passes it to \<open>goToSlide\<close>, which
  rejects a negative index: nothing is scrolled and the index stays 0, which is neither 3
  nor \<open>-1\<close>.
\<close>

theorem next_bounce_negative_step_counterexample:
  "\<not> infinite (currentOptions (laid_out (plain_options\<lparr>bounceBack := True, slidesToShow := 2,
        slidesToScroll := - 1\<rparr>) 1200 588 4 0))
   \<and> bounceBack (currentOptions (laid_out (plain_options\<lparr>bounceBack := True, slidesToShow := 2,
        slidesToScroll := - 1\<rparr>) 1200 588 4 0))
   \<and> totalSlides (laid_out (plain_options\<lparr>bounceBack := True, slidesToShow := 2,
        slidesToScroll := - 1\<rparr>) 1200 588 4 0) = 4
   \<and> currentSlide (laid_out (plain_options\<lparr>bounceBack := True, slidesToShow := 2,
        slidesToScroll := - 1\<rparr>) 1200 588 4 0) = 0
   \<and> slidesToScroll (currentOptions (laid_out (plain_options\<lparr>bounceBack := True,
        slidesToShow := 2, slidesToScroll := - 1\<rparr>) 1200 588 4 0)) = - 1
   \<and> (0 + (- 1)) mod 4 = (3::int)
   \<and> js_rem (0 + (- 1)) 4 = Some (- 1)
   \<and> next (laid_out (plain_options\<lparr>bounceBack := True, slidesToShow := 2,
        slidesToScroll := - 1\<rparr>) 1200 588 4 0)
       = Inr (laid_out (plain_options\<lparr>bounceBack := True, slidesToShow := 2,
               slidesToScroll := - 1\<rparr>) 1200 588 4 0)
   \<and> map_sum id currentSlide (next (laid_out (plain_options\<lparr>bounceBack := True,
        slidesToShow := 2, slidesToScroll := - 1\<rparr>) 1200 588 4 0)) = Inr 0"
  by (simp add: laid_out_def plain_options_def next_def js_rem_def goToSlide_def Let_def)

text \<open>
  C6, amended: in bounce mode, with \<open>slidesToScroll \<ge> 0\<close> and a current index in
  \<open>[0, totalSlides)\<close> (and a first slide to measure in centre mode), \<open>next()\<close> sets the index
  to \<open>(currentSlide + slidesToScroll) mod totalSlides\<close>; \<open>prev()\<close> subtracts \<open>slidesToScroll\<close>
  and adds \<open>totalSlides\<close> to a negative result (a result that is still negative is rejected
  by \<open>goToSlide\<close> and the index stays). With 4 slides and \<open>slidesToScroll = 1\<close>, \<open>prev()\<close>
  from index 0 gives index 3.
\<close>

theorem next_prev_bounce_wrap:
  assumes "\<not> infinite (currentOptions ctx)" and "bounceBack (currentOptions ctx)"
    and "0 \<le> slidesToScroll (currentOptions ctx)"
    and "0 \<le> currentSlide ctx" and "currentSlide ctx < totalSlides ctx"
    and "centerMode (currentOptions ctx) \<longrightarrow> slides ctx \<noteq> []"
  shows "(\<exists>c. next ctx = Inr c
            \<and> currentSlide c
                = (currentSlide ctx + slidesToScroll (currentOptions ctx)) mod totalSlides ctx)
       \<and> (\<exists>c. prev ctx = Inr c
            \<and> currentSlide c =
                (if 0 \<le> currentSlide ctx - slidesToScroll (currentOptions ctx)
                 then currentSlide ctx - slidesToScroll (currentOptions ctx)
                 else if 0 \<le> totalSlides ctx + (currentSlide ctx - slidesToScroll (currentOptions ctx))
                 then totalSlides ctx + (currentSlide ctx - slidesToScroll (currentOptions ctx))
                 else currentSlide ctx))
       \<and> (totalSlides ctx = 4 \<and> slidesToScroll (currentOptions ctx) = 1 \<and> currentSlide ctx = 0
            \<longrightarrow> (\<exists>c. prev ctx = Inr c \<and> currentSlide c = 3))"
proof -
  let ?s = "slidesToScroll (currentOptions ctx)"
  let ?T = "totalSlides ctx"
  let ?n = "(currentSlide ctx + ?s) mod ?T"
  have T: "0 < ?T" using assms(4,5) by simp
  have rem: "js_rem (currentSlide ctx + ?s) ?T = Some ?n"
    using assms(3,4) T by (auto simp: js_rem_def sgn_if)
  have nx: "next ctx = goToSlide ctx ?n"
    using assms(1,2) rem by (simp add: next_def Let_def)
  have "0 \<le> ?n" "?n < ?T" using T by simp_all
  from goToSlide_in_range [OF assms(1) this assms(6)] nx
  have A: "\<exists>c. next ctx = Inr c \<and> currentSlide c = ?n" by auto
  let ?p = "currentSlide ctx - ?s"
  let ?q = "if ?p < 0 then ?T + ?p else ?p"
  have pv: "prev ctx = goToSlide ctx ?q"
    using assms(1,2) by (simp add: prev_def Let_def)
  have B: "\<exists>c. prev ctx = Inr c
            \<and> currentSlide c = (if 0 \<le> ?p then ?p else if 0 \<le> ?T + ?p then ?T + ?p
                                 else currentSlide ctx)"
  proof (cases "0 \<le> ?q")
    case True
    have "?q < ?T" using assms(3,5) by auto
    from goToSlide_in_range [OF assms(1) True this assms(6)] pv show ?thesis
      using True by (auto split: if_splits)
  next
    case False
    then have "goToSlide ctx ?q = Inr ctx" by (intro goToSlide_out_of_range) simp
    with pv False show ?thesis by (auto split: if_splits)
  qed
  have C: "\<exists>c. prev ctx = Inr c \<and> currentSlide c = 3"
    if "?T = 4 \<and> ?s = 1 \<and> currentSlide ctx = 0"
    using B that by simp
  from A B C show ?thesis by blast
qed

theorem next_prev_bounce_wrap_witness:
  "\<exists>c. prev (laid_out (plain_options\<lparr>bounceBack := True, slidesToShow := 2\<rparr>) 1200 588 4 0) = Inr c
       \<and> currentSlide c = 3"
proof -
  let ?c = "laid_out (plain_options\<lparr>bounceBack := True, slidesToShow := 2\<rparr>) 1200 588 4 0"
  have h: "\<not> infinite (currentOptions ?c)" "bounceBack (currentOptions ?c)"
    "0 \<le> slidesToScroll (currentOptions ?c)"
    "0 \<le> currentSlide ?c" "currentSlide ?c < totalSlides ?c"
    "centerMode (currentOptions ?c) \<longrightarrow> slides ?c \<noteq> []"
    by (simp_all add: laid_out_def plain_options_def)
  have s: "totalSlides ?c = 4 \<and> slidesToScroll (currentOptions ?c) = 1 \<and> currentSlide ?c = 0"
    by (simp add: laid_out_def plain_options_def)
  from next_prev_bounce_wrap [OF h] s show ?thesis by blast
qed

text \<open>
  C7: \<open>goToSlide(index)\<close> returns the context unchanged in infinite mode; outside infinite
  mode an index below 0 or at least \<open>totalSlides\<close> returns the context unchanged as well (no
  scroll request, no change of \<open>currentSlide\<close> or of anything else, no error); an index in
  range appends exactly one request to the \<open>scrollTo\<close> calls of the track, with behaviour
  \<open>smooth\<close> and as target the entry of \<open>slidePositions\<close> for the index (shifted by the clone
  count in bounce mode), with the centering adjustment in centre mode, sets \<open>currentSlide\<close>
  to the index and changes nothing else.
\<close>

theorem goToSlide_cases:
  "(infinite (currentOptions ctx) \<longrightarrow> goToSlide ctx i = Inr ctx)
   \<and> (\<not> infinite (currentOptions ctx) \<and> (i < 0 \<or> i \<ge> totalSlides ctx) \<longrightarrow>
        goToSlide ctx i = Inr ctx)
   \<and> (\<not> infinite (currentOptions ctx) \<and> 0 \<le> i \<and> i < totalSlides ctx
        \<and> (centerMode (currentOptions ctx) \<longrightarrow> slides ctx \<noteq> []) \<longrightarrow>
        goToSlide ctx i =
          Inr (ctx\<lparr>track := (track ctx)
                  \<lparr>scrollTo_calls := scrollTo_calls (track ctx) @
                     [\<lparr>left =
                         map_option
                           (\<lambda>p. if centerMode (currentOptions ctx)
                                then p - (offsetWidth (container ctx) - paddingLeft (container ctx)
                                          - paddingRight (container ctx)) / 2
                                       + offsetWidth (hd (slides ctx)) / 2
                                       - paddingLeft (container ctx)
                                else p)
                           (at_index (slidePositions ctx)
                              (if bounceBack (currentOptions ctx)
                               then max (slidesToShow (currentOptions ctx)) 2 + i else i)),
                       behavior = ''smooth''\<rparr>]\<rparr>,
                 currentSlide := i\<rparr>))"
  by (cases "slides ctx")
     (auto simp: goToSlide_def scrollTo_def Let_def option.map_comp comp_def option.map_ident
           cong: option.map_cong)

theorem goToSlide_cases_witness:
  "goToSlide (laid_out (plain_options\<lparr>infinite := True\<rparr>) 1200 384 5 0) 3
     = Inr (laid_out (plain_options\<lparr>infinite := True\<rparr>) 1200 384 5 0)
   \<and> goToSlide (laid_out plain_options 1200 384 5 0) 5 = Inr (laid_out plain_options 1200 384 5 0)
   \<and> goToSlide (laid_out plain_options 1200 384 5 0) (- 1)
       = Inr (laid_out plain_options 1200 384 5 0)
   \<and> scrollTo_calls (track (laid_out plain_options 1200 384 5 0)) = []
   \<and> goToSlide (laid_out plain_options 1200 384 5 0) 3
       = Inr ((laid_out plain_options 1200 384 5 0)
               \<lparr>track := (track (laid_out plain_options 1200 384 5 0))
                  \<lparr>scrollTo_calls := [\<lparr>left = Some 1224, behavior = ''smooth''\<rparr>]\<rparr>,
                currentSlide := 3\<rparr>)"
proof -
  let ?c = "laid_out plain_options 1200 384 5 0"
  let ?d = "laid_out (plain_options\<lparr>infinite := True\<rparr>) 1200 384 5 0"
  have a: "goToSlide ?d 3 = Inr ?d"
    using goToSlide_cases [of ?d 3] by (simp add: laid_out_def plain_options_def)
  have b: "goToSlide ?c 5 = Inr ?c"
    using goToSlide_cases [of ?c 5] by (simp add: laid_out_def plain_options_def)
  have c: "goToSlide ?c (- 1) = Inr ?c"
    using goToSlide_cases [of ?c "- 1"] by (simp add: laid_out_def plain_options_def)
  have h: "\<not> infinite (currentOptions ?c) \<and> (0::int) \<le> 3 \<and> 3 < totalSlides ?c
        \<and> (centerMode (currentOptions ?c) \<longrightarrow> slides ?c \<noteq> [])"
    by (simp add: laid_out_def plain_options_def)
  have p: "at_index (slidePositions ?c) 3 = Some 1224"
    by (simp add: laid_out_def plain_options_def at_index_def upt_conv_Cons)
  have f: "\<not> centerMode (currentOptions ?c)" "\<not> bounceBack (currentOptions ?c)"
    by (simp_all add: laid_out_def plain_options_def)
  have e: "scrollTo_calls (track ?c) = []"
    by (simp add: laid_out_def)
  have d: "goToSlide ?c 3
     = Inr (?c\<lparr>track := (track ?c)
                \<lparr>scrollTo_calls := [\<lparr>left = Some 1224, behavior = ''smooth''\<rparr>]\<rparr>,
              currentSlide := 3\<rparr>)"
    using goToSlide_cases [of ?c 3] h p f e by simp
  from a b c d e show ?thesis by blast
qed

subsection \<open>C1: teleporting at the strip boundaries\<close>

lemma jump_to_effect:
  "scrollLeft (track (jump_to ctx x)) = x"
  "scrollBehavior (track (jump_to ctx x)) = ''auto''"
  "timeouts (jump_to ctx x)
     = timeouts ctx @ [\<lparr>delay = 10, action = SetScrollBehavior
          (if scrollBehavior (track ctx) = [] then ''smooth'' else scrollBehavior (track ctx))\<rparr>]"
  by (simp_all add: jump_to_def seamlessJump_def Let_def)

lemma handleInfiniteScroll_branches:
  assumes "infiniteScrollSetup ctx" and "slides ctx = s0 # rest"
  shows "handleInfiniteScroll ctx =
     (let sw = offsetWidth s0 + gap (currentOptions ctx);
          W = real_of_int (totalSlides ctx) * sw
      in if scrollLeft (track ctx) \<le> sw * 2 then Inr (jump_to ctx (scrollLeft (track ctx) + W))
         else if (case rightBoundary ctx sw of None \<Rightarrow> False | Some rb \<Rightarrow> rb \<le> scrollLeft (track ctx))
         then Inr (jump_to ctx (scrollLeft (track ctx) - W))
         else Inr ctx)"
  using assms by (simp add: handleInfiniteScroll_def Let_def)

text \<open>
  The inline scroll behaviour is never empty once the setup has completed: the deferred
  part of the setup leaves \<open>smooth\<close>, and neither \<open>handleInfiniteScroll\<close> nor a callback it
  schedules writes an empty value.
\<close>

lemma setupTrueInfinite_deferred_smooth:
  "setupTrueInfinite_deferred p ctx = Inr c \<Longrightarrow>
     infiniteScrollSetup c \<and> scrollBehavior (track c) = ''smooth''"
  by (auto simp: setupTrueInfinite_deferred_def Let_def split: option.splits list.splits if_splits)

lemma handleInfiniteScroll_behavior_nonempty:
  assumes "handleInfiniteScroll ctx = Inr c" and "scrollBehavior (track ctx) \<noteq> []"
  shows "scrollBehavior (track c) \<noteq> []"
    and "\<And>t. t \<in> set (timeouts c) \<Longrightarrow> t \<notin> set (timeouts ctx) \<Longrightarrow>
           scrollBehavior (track (run_callback (action t) c)) \<noteq> []"
  using assms
  by (auto simp: handleInfiniteScroll_def Let_def jump_to_def seamlessJump_def
           split: if_splits list.splits option.splits)

text \<open>
  C1: let \<open>sw\<close> be the width of the first slide plus the gap and \<open>W = totalSlides * sw\<close> the
  width of one cycle of real items. After setup, when \<open>handleInfiniteScroll\<close> sees the offset
  at most \<open>2 * sw\<close>, or at least the right boundary, it moves the offset by exactly \<open>W\<close>
  (up at the left end, down at the right end), so the new offset is the old one plus an
  integer multiple of \<open>W\<close>; the scroll behaviour is \<open>auto\<close> after the jump and one callback
  with delay 10 is scheduled, which leaves the offset alone and writes back the behaviour
  found before the jump (\<open>smooth\<close> if the inline value was empty). Strictly between the
  boundaries the context, and with it the offset, is unchanged.
\<close>

theorem handleInfiniteScroll_teleport:
  fixes ctx :: slider_context and sw W :: real and restored :: string
  defines "sw \<equiv> offsetWidth (hd (slides ctx)) + gap (currentOptions ctx)"
    and "W \<equiv> real_of_int (totalSlides ctx) * sw"
    and "restored \<equiv>
           (if scrollBehavior (track ctx) = [] then ''smooth'' else scrollBehavior (track ctx))"
  assumes "infiniteScrollSetup ctx" and "slides ctx \<noteq> []"
  shows
    "(scrollLeft (track ctx) \<le> 2 * sw
        \<or> (\<exists>rb. rightBoundary ctx sw = Some rb \<and> rb \<le> scrollLeft (track ctx)) \<longrightarrow>
      (\<exists>c t. handleInfiniteScroll ctx = Inr c
         \<and> scrollLeft (track c)
             = (if scrollLeft (track ctx) \<le> 2 * sw then scrollLeft (track ctx) + W
                else scrollLeft (track ctx) - W)
         \<and> (\<exists>k::int. scrollLeft (track c) = scrollLeft (track ctx) + real_of_int k * W)
         \<and> scrollBehavior (track c) = ''auto''
         \<and> timeouts c = timeouts ctx @ [t] \<and> delay t = 10
         \<and> scrollBehavior (track (run_callback (action t) c)) = restored
         \<and> scrollLeft (track (run_callback (action t) c)) = scrollLeft (track c)
         \<and> (scrollBehavior (track ctx) \<noteq> [] \<longrightarrow> restored = scrollBehavior (track ctx))))
     \<and> (2 * sw < scrollLeft (track ctx)
          \<and> (\<forall>rb. rightBoundary ctx sw = Some rb \<longrightarrow> scrollLeft (track ctx) < rb) \<longrightarrow>
        handleInfiniteScroll ctx = Inr ctx)"
proof -
  obtain s0 rest where s: "slides ctx = s0 # rest" using assms(5) by (cases "slides ctx") auto
  have sw: "sw = offsetWidth s0 + gap (currentOptions ctx)" by (simp add: sw_def s)
  note br = handleInfiniteScroll_branches [OF assms(4) s, folded sw, unfolded Let_def, folded W_def]
  let ?x = "scrollLeft (track ctx)"
  have tele: "\<exists>c t. handleInfiniteScroll ctx = Inr c
         \<and> scrollLeft (track c) = (if ?x \<le> 2 * sw then ?x + W else ?x - W)
         \<and> (\<exists>k::int. scrollLeft (track c) = ?x + real_of_int k * W)
         \<and> scrollBehavior (track c) = ''auto''
         \<and> timeouts c = timeouts ctx @ [t] \<and> delay t = 10
         \<and> scrollBehavior (track (run_callback (action t) c)) = restored
         \<and> scrollLeft (track (run_callback (action t) c)) = scrollLeft (track c)
         \<and> (scrollBehavior (track ctx) \<noteq> [] \<longrightarrow> restored = scrollBehavior (track ctx))"
    if h: "?x \<le> 2 * sw \<or> (\<exists>rb. rightBoundary ctx sw = Some rb \<and> rb \<le> ?x)"
  proof -
    define y where "y = (if ?x \<le> 2 * sw then ?x + W else ?x - W)"
    define t where "t = \<lparr>delay = 10, action = SetScrollBehavior restored\<rparr>"
    have run: "handleInfiniteScroll ctx = Inr (jump_to ctx y)"
      using h by (auto simp: br y_def mult.commute)
    have k: "\<exists>k::int. y = ?x + real_of_int k * W"
    proof (cases "?x \<le> 2 * sw")
      case True
      then have "y = ?x + real_of_int 1 * W" by (simp add: y_def)
      then show ?thesis by blast
    next
      case False
      then have "y = ?x + real_of_int (- 1) * W" by (simp add: y_def)
      then show ?thesis by blast
    qed
    have "timeouts (jump_to ctx y) = timeouts ctx @ [t]"
      by (simp add: jump_to_effect t_def restored_def)
    moreover have "scrollBehavior (track (run_callback (action t) (jump_to ctx y))) = restored"
      "scrollLeft (track (run_callback (action t) (jump_to ctx y))) = scrollLeft (track (jump_to ctx y))"
      "delay t = 10"
      by (simp_all add: t_def)
    moreover have "scrollBehavior (track ctx) \<noteq> [] \<longrightarrow> restored = scrollBehavior (track ctx)"
      by (simp add: restored_def)
    ultimately show ?thesis
      using run k by (auto simp: jump_to_effect y_def)
  qed
  have stay: "handleInfiniteScroll ctx = Inr ctx"
    if "2 * sw < ?x \<and> (\<forall>rb. rightBoundary ctx sw = Some rb \<longrightarrow> ?x < rb)"
    using that by (auto simp: br mult.commute split: option.splits)
  from tele stay show ?thesis by blast
qed


theorem handleInfiniteScroll_teleport_witness:
  "map_sum id (\<lambda>c. (scrollLeft (track c), scrollBehavior (track c)))
      (handleInfiniteScroll (infinite_laid_out 1200 384 5 6 100)) = Inr (2140, ''auto'')
   \<and> map_sum id (\<lambda>c. (scrollLeft (track c), scrollBehavior (track c)))
      (handleInfiniteScroll (infinite_laid_out 1200 384 5 6 3700)) = Inr (1660, ''auto'')
   \<and> handleInfiniteScroll (infinite_laid_out 1200 384 5 6 2448)
      = Inr (infinite_laid_out 1200 384 5 6 2448)"
proof -
  have f: "infiniteScrollSetup (infinite_laid_out 1200 384 5 6 x)"
    "slides (infinite_laid_out 1200 384 5 6 x) \<noteq> []"
    "offsetWidth (hd (slides (infinite_laid_out 1200 384 5 6 x)))
       + gap (currentOptions (infinite_laid_out 1200 384 5 6 x)) = 408"
    "scrollLeft (track (infinite_laid_out 1200 384 5 6 x)) = x"
    "totalSlides (infinite_laid_out 1200 384 5 6 x) = 5" for x
    by (simp_all add: infinite_laid_out_def laid_out_def plain_options_def Let_def upt_conv_Cons)
  have rb: "rightBoundary (infinite_laid_out 1200 384 5 6 x) 408 = Some 3672" for x
    by (simp add: rightBoundary_def at_index_def infinite_laid_out_def laid_out_def
        plain_options_def Let_def upt_conv_Cons)
  note T = handleInfiniteScroll_teleport [OF f(1,2), unfolded f(3,4,5) rb]
  have a: "map_sum id (\<lambda>c. (scrollLeft (track c), scrollBehavior (track c)))
      (handleInfiniteScroll (infinite_laid_out 1200 384 5 6 100)) = Inr (2140, ''auto'')"
    using T [of 100] by auto
  have b: "map_sum id (\<lambda>c. (scrollLeft (track c), scrollBehavior (track c)))
      (handleInfiniteScroll (infinite_laid_out 1200 384 5 6 3700)) = Inr (1660, ''auto'')"
    using T [of 3700] by auto
  have c: "handleInfiniteScroll (infinite_laid_out 1200 384 5 6 2448)
      = Inr (infinite_laid_out 1200 384 5 6 2448)"
    using T [of 2448] by auto
  from a b c show ?thesis by blast
qed

subsection \<open>C8: the order of the clones\<close>

lemma clone_loop_atEnd:
  assumes "\<And>i f. i \<in> set is \<Longrightarrow> \<exists>c. mk i f = Inr c \<and> P i c"
  shows "\<exists>fresh' post. clone_loop mk True is fresh ch = Inr (fresh', ch @ post) \<and> list_all2 P is post"
  using assms
proof (induction "is" arbitrary: fresh ch)
  case Nil
  then show ?case by simp
next
  case (Cons i "is")
  from Cons.prems [of i fresh] obtain c where c: "mk i fresh = Inr c" "P i c" by auto
  have "\<exists>fresh' post. clone_loop mk True is (Suc fresh) (ch @ [c]) = Inr (fresh', (ch @ [c]) @ post)
          \<and> list_all2 P is post"
    by (rule Cons.IH) (simp add: Cons.prems)
  then obtain fresh' post where
    "clone_loop mk True is (Suc fresh) (ch @ [c]) = Inr (fresh', ch @ c # post)" "list_all2 P is post"
    by auto
  with c show ?case by (intro exI [of _ fresh'] exI [of _ "c # post"]) simp
qed

lemma clone_loop_atStart:
  assumes "\<And>i f. i \<in> set is \<Longrightarrow> \<exists>c. mk i f = Inr c \<and> P i c"
  shows "\<exists>fresh' pre. clone_loop mk False is fresh ch = Inr (fresh', rev pre @ ch) \<and> list_all2 P is pre"
  using assms
proof (induction "is" arbitrary: fresh ch)
  case Nil
  then show ?case by simp
next
  case (Cons i "is")
  from Cons.prems [of i fresh] obtain c where c: "mk i fresh = Inr c" "P i c" by auto
  have "\<exists>fresh' pre. clone_loop mk False is (Suc fresh) (c # ch) = Inr (fresh', rev pre @ c # ch)
          \<and> list_all2 P is pre"
    by (rule Cons.IH) (simp add: Cons.prems)
  then obtain fresh' pre where
    "clone_loop mk False is (Suc fresh) (c # ch) = Inr (fresh', rev pre @ c # ch)" "list_all2 P is pre"
    by auto
  with c show ?case by (intro exI [of _ fresh'] exI [of _ "c # pre"]) simp
qed

lemma js_rem_nonneg: "0 \<le> i \<Longrightarrow> 0 < T \<Longrightarrow> js_rem i T = Some (i mod T)"
  by (auto simp: js_rem_def sgn_if)

lemma clone_slide_tagged:
  assumes "0 \<le> i" and "i < int (length sl)"
  shows "\<exists>c. clone_slide sl [''cloned'', ''infinite-clone''] True (Some i) f = Inr c
           \<and> originalIndex c = Some i \<and> content c = content (sl ! nat i)
           \<and> has_class ''infinite-clone'' c \<and> has_class ''cloned'' c"
  using assms
  by (auto simp: clone_slide_def at_index_def Let_def classList_add_def cloneNode_def has_class_def)

lemma nth_upto_int: "j < nat k \<Longrightarrow> [0..k - 1] ! j = int j"
  by (simp add: nth_upto)

text \<open>
  The sibling \<open>setupTrueInfinite\<close> builds the order that C8 states. With \<open>T\<close> real slides and
  \<open>k = max T (2 * \<lceil>containerWidth / slideWidth\<rceil>)\<close> clones on each side it does not fail, and
  the strip is \<open>rev pre @ children @ post\<close>, where \<open>pre ! j\<close>, the \<open>j\<close>-th clone to the left of the
  first real item, copies slide \<open>T - 1 - j mod T\<close> and \<open>post ! j\<close>, the \<open>j\<close>-th clone after the
  last real item, copies slide \<open>j mod T\<close>, each with that \<open>originalIndex\<close>.
\<close>

lemma setupTrueInfinite_strip_order:
  fixes sl :: "slide_node list" and w0 g cw :: real
  defines "T \<equiv> int (length sl)"
  defines "k \<equiv> max T (\<lceil>cw / (w0 + g)\<rceil> * 2)"
  assumes "sl \<noteq> []" and "w0 + g \<noteq> 0"
  shows "\<exists>fresh' pre post.
           setupTrueInfinite cw w0 g T sl (fresh, ch) = Inr (k, fresh', rev pre @ ch @ post)
         \<and> length pre = nat k \<and> length post = nat k
         \<and> (\<forall>j < nat k. originalIndex (pre ! j) = Some (T - 1 - int j mod T)
                \<and> content (pre ! j) = content (sl ! nat (T - 1 - int j mod T))
                \<and> has_class ''infinite-clone'' (pre ! j))
         \<and> (\<forall>j < nat k. originalIndex (post ! j) = Some (int j mod T)
                \<and> content (post ! j) = content (sl ! nat (int j mod T))
                \<and> has_class ''infinite-clone'' (post ! j))"
proof -
  let ?cs = "[''cloned'', ''infinite-clone'']"
  let ?mk1 = "\<lambda>i. clone_slide sl ?cs True (js_rem i T)"
  let ?mk2 = "\<lambda>i. clone_slide sl ?cs True
                 (case js_rem i T of None \<Rightarrow> None | Some r \<Rightarrow> js_rem (T - 1 - r) T)"
  let ?P1 = "\<lambda>i c. originalIndex c = Some (i mod T) \<and> content c = content (sl ! nat (i mod T))
                \<and> has_class ''infinite-clone'' c"
  let ?P2 = "\<lambda>i c. originalIndex c = Some (T - 1 - i mod T)
                \<and> content c = content (sl ! nat (T - 1 - i mod T))
                \<and> has_class ''infinite-clone'' c"
  have Tpos: "0 < T" using assms(3) by (simp add: T_def)
  have kT: "T \<le> k" by (simp add: k_def)
  have m1: "\<exists>c. ?mk1 i f = Inr c \<and> ?P1 i c" if "i \<in> set [0..k - 1]" for i f
  proof -
    have i: "0 \<le> i" using that by simp
    have r: "js_rem i T = Some (i mod T)" using i Tpos by (rule js_rem_nonneg)
    have "0 \<le> i mod T" "i mod T < int (length sl)" using Tpos by (simp_all add: T_def)
    from clone_slide_tagged [OF this, of f] r show ?thesis by auto
  qed
  have m2: "\<exists>c. ?mk2 i f = Inr c \<and> ?P2 i c" if "i \<in> set [0..k - 1]" for i f
  proof -
    have i: "0 \<le> i" using that by simp
    have r: "js_rem i T = Some (i mod T)" using i Tpos by (rule js_rem_nonneg)
    have b: "0 \<le> T - 1 - i mod T" "T - 1 - i mod T < T"
      using Tpos pos_mod_bound [of T i] pos_mod_sign [of T i] by linarith+
    then have r2: "js_rem (T - 1 - i mod T) T = Some (T - 1 - i mod T)"
      by (auto simp: js_rem_def sgn_if)
    have "T - 1 - i mod T < int (length sl)" using b by (simp add: T_def)
    from clone_slide_tagged [OF b(1) this, of f] r r2 show ?thesis by auto
  qed
  from clone_loop_atEnd [of "[0..k - 1]" ?mk1 ?P1 fresh ch] m1 obtain f1 post where
    l1: "clone_loop ?mk1 True [0..k - 1] fresh ch = Inr (f1, ch @ post)"
    and p1: "list_all2 ?P1 [0..k - 1] post" by blast
  from clone_loop_atStart [of "[0..k - 1]" ?mk2 ?P2 f1 "ch @ post"] m2 obtain f2 pre where
    l2: "clone_loop ?mk2 False [0..k - 1] f1 (ch @ post) = Inr (f2, rev pre @ ch @ post)"
    and p2: "list_all2 ?P2 [0..k - 1] pre" by blast
  have run: "setupTrueInfinite cw w0 g T sl (fresh, ch) = Inr (k, f2, rev pre @ ch @ post)"
    using assms(3,4) l1 l2 by (simp add: setupTrueInfinite_def Let_def k_def)
  have len: "length [0..k - 1] = nat k" using kT Tpos by simp
  have lpost: "length post = nat k" and lpre: "length pre = nat k"
    using p1 p2 len by (auto dest: list_all2_lengthD)
  have q1: "?P1 (int j) (post ! j)" if "j < nat k" for j
  proof -
    have "j < length [0..k - 1]" using that len by simp
    with p1 have "?P1 ([0..k - 1] ! j) (post ! j)" by (rule list_all2_nthD)
    then show ?thesis using that by (simp add: nth_upto_int)
  qed
  have q2: "?P2 (int j) (pre ! j)" if "j < nat k" for j
  proof -
    have "j < length [0..k - 1]" using that len by simp
    with p2 have "?P2 ([0..k - 1] ! j) (pre ! j)" by (rule list_all2_nthD)
    then show ?thesis using that by (simp add: nth_upto_int)
  qed
  from run lpre lpost q1 q2 show ?thesis by blast
qed

text \<open>
  C8 at \<open>createClonedSlides(slides, track, 2, 'infinite')\<close> over three slides. Every clone
  carries its \<open>originalIndex\<close>, but the strip reads 2, 1 | 0, 1, 2 | 0, 1: the loop takes the
  tail in ascending order and puts each clone first, so the prepended block is the tail
  reversed, and the clone just before the first real item has \<open>originalIndex\<close> 1 where the
  claim requires \<open>totalSlides - 1 = 2\<close>.
\<close>

theorem createClonedSlides_prepends_reversed:
  "map_sum id (\<lambda>tr. map originalIndex (snd tr))
      (createClonedSlides (real_slides 3) (3, real_slides 3) 2 ''infinite'')
     = Inr [Some 2, Some 1, None, None, None, Some 0, Some 1]
   \<and> map_sum id (\<lambda>tr. map content (snd tr))
      (createClonedSlides (real_slides 3) (3, real_slides 3) 2 ''infinite'')
     = Inr [2, 1, 0, 1, 2, 0, 1]
   \<and> map_sum id (\<lambda>tr. originalIndex (snd tr ! 1))
      (createClonedSlides (real_slides 3) (3, real_slides 3) 2 ''infinite'')
     \<noteq> Inr (Some (3 - 1))"
  by code_simp

subsection \<open>C10: teardown\<close>

text \<open>
  C10 at a bounce slider with autoplay over four slides: after the clone setup, the start
  of autoplay, a pause and a resume (pointer enter and leave), \<open>destroy()\<close> leaves the four
  bounce clones in the strip and the resume timeout pending; when that timeout fires,
  autoplay starts again with a new interval. \<open>removeClonedSlides\<close> with its default class
  leaves the bounce clones as well.
\<close>

theorem destroy_keeps_bounce_clones_and_resume_timer:
  "(case setupSlides_clones (new_slider bounce_autoplay_options (real_slides 4)) of
      Inl e \<Rightarrow> False
    | Inr s0 \<Rightarrow>
        let s = resumeAutoplay (pauseAutoplay (startAutoplay s0));
            d = destroy s
        in map (has_class ''bounce-clone'') (this_children s0)
             = [True, True, False, False, False, False, True, True]
         \<and> host_timers s
             = [\<lparr>timer_id = 2, repeating = False, timer_delay = 1000, callback = ResumeAutoplay\<rparr>]
         \<and> map (has_class ''bounce-clone'') (this_children d)
             = [True, True, False, False, False, False, True, True]
         \<and> map (has_class ''bounce-clone'') (removeClonedSlides (this_children s) ''infinite-clone'')
             = [True, True, False, False, False, False, True, True]
         \<and> host_timers d
             = [\<lparr>timer_id = 2, repeating = False, timer_delay = 1000, callback = ResumeAutoplay\<rparr>]
         \<and> host_timers (fire_resume_timer 2 d)
             = [\<lparr>timer_id = 3, repeating = True, timer_delay = 3000, callback = AutoplayTick\<rparr>]
         \<and> this_autoplayInterval (fire_resume_timer 2 d) = Some 3)"
  by code_simp

subsection \<open>C2: the number of clones under autoplay\<close>

lemma infinite_clones_snoc_le:
  "length (infinite_clones (ch @ [c])) \<le> Suc (length (infinite_clones ch))"
  by (simp add: infinite_clones_def)

lemma infinite_clones_Cons_le:
  "length (infinite_clones (c # ch)) \<le> Suc (length (infinite_clones ch))"
  by (simp add: infinite_clones_def)

lemma infinite_clones_filter_le:
  "length (infinite_clones (filter P ch)) \<le> length (infinite_clones ch)"
proof -
  have "infinite_clones (filter P ch) = filter P (infinite_clones ch)"
    by (simp add: infinite_clones_def conj_commute)
  then show ?thesis by simp
qed

lemma clone_loop_count:
  "clone_loop mk atEnd is fresh ch = Inr (fresh', ch') \<Longrightarrow>
     length (infinite_clones ch') \<le> length (infinite_clones ch) + length is"
proof (induction "is" arbitrary: fresh ch)
  case Nil
  then show ?case by simp
next
  case (Cons i "is")
  from Cons.prems obtain c where c: "mk i fresh = Inr c"
    and rest: "clone_loop mk atEnd is (Suc fresh) (if atEnd then ch @ [c] else c # ch) = Inr (fresh', ch')"
    by (auto split: sum.splits)
  from Cons.IH [OF rest]
  have "length (infinite_clones ch')
          \<le> length (infinite_clones (if atEnd then ch @ [c] else c # ch)) + length is" .
  also have "\<dots> \<le> Suc (length (infinite_clones ch)) + length is"
    using infinite_clones_snoc_le [of ch c] infinite_clones_Cons_le [of c ch] by simp
  finally show ?case by simp
qed

lemma clone_loop_succeeds:
  "(\<And>i f. i \<in> set is \<Longrightarrow> \<exists>c. mk i f = Inr c) \<Longrightarrow>
     \<exists>fresh' ch'. clone_loop mk atEnd is fresh ch = Inr (fresh', ch')"
proof (induction "is" arbitrary: fresh ch)
  case Nil
  then show ?case by simp
next
  case (Cons i "is")
  from Cons.prems [of i fresh] obtain c where c: "mk i fresh = Inr c" by auto
  have "\<exists>fresh' ch'. clone_loop mk atEnd is (Suc fresh) (if atEnd then ch @ [c] else c # ch)
          = Inr (fresh', ch')"
    by (rule Cons.IH) (simp add: Cons.prems)
  with c show ?case by simp
qed

lemma clone_slide_succeeds:
  "0 \<le> i \<Longrightarrow> i < int (length sl) \<Longrightarrow> \<exists>c. clone_slide sl cs tagged (Some i) f = Inr c"
  by (simp add: clone_slide_def at_index_def Let_def)

lemma js_rem_small: "0 \<le> i \<Longrightarrow> i < T \<Longrightarrow> js_rem i T = Some i"
  by (auto simp: js_rem_def sgn_if)

lemma addClonesAtStart_loop_count:
  "addClonesAtStart_loop L g sl is fresh ch w = Inr (fresh', ch', w') \<Longrightarrow>
     length (infinite_clones ch') \<le> length (infinite_clones ch) + length is"
proof (induction "is" arbitrary: fresh ch w)
  case Nil
  then show ?case by simp
next
  case (Cons i "is")
  from Cons.prems obtain c where
    rest: "addClonesAtStart_loop L g sl is (Suc fresh) (c # ch)
             (w + (node_offsetWidth L (c # ch) c + g)) = Inr (fresh', ch', w')"
    by (auto simp: Let_def split: sum.splits)
  from Cons.IH [OF rest] infinite_clones_Cons_le [of c ch] show ?case by simp
qed

lemma addClonesAtStart_loop_succeeds:
  "(\<And>i. i \<in> set is \<Longrightarrow> 0 \<le> i \<and> i < int (length sl)) \<Longrightarrow>
     \<exists>r. addClonesAtStart_loop L g sl is fresh ch w = Inr r"
proof (induction "is" arbitrary: fresh ch w)
  case Nil
  then show ?case by simp
next
  case (Cons i "is")
  have "0 \<le> i" "i < int (length sl)" using Cons.prems [of i] by simp_all
  from clone_slide_succeeds [OF this] obtain c where
    c: "clone_slide sl [''cloned'', ''infinite-clone''] True (Some i) fresh = Inr c" by blast
  have "\<exists>r. addClonesAtStart_loop L g sl is (Suc fresh) (c # ch)
          (w + (node_offsetWidth L (c # ch) c + g)) = Inr r"
    by (rule Cons.IH) (simp add: Cons.prems)
  with c show ?case by (simp add: Let_def)
qed

lemma autoplay_remove_loop_count:
  "length (infinite_clones (fst (autoplay_remove_loop L g x cs ch a))) \<le> length (infinite_clones ch)"
proof (induction cs arbitrary: ch a)
  case Nil
  then show ?case by simp
next
  case (Cons c cs)
  have "length (infinite_clones (fst (autoplay_remove_loop L g x (c # cs) ch a)))
          \<le> length (infinite_clones (filter (\<lambda>n. nid n \<noteq> nid c) ch))"
    by (simp add: Let_def Cons.IH)
  also have "\<dots> \<le> length (infinite_clones ch)" by (rule infinite_clones_filter_le)
  finally show ?case .
qed

lemma same_slider_refl [simp]: "same_slider s s" by (simp add: same_slider_def)

lemma same_slider_trans: "same_slider a b \<Longrightarrow> same_slider b c \<Longrightarrow> same_slider a c"
  by (simp add: same_slider_def)

lemma calculateSlidePositions_frame [simp]:
  "this_children (calculateSlidePositions L s) = this_children s"
  "this_slides (calculateSlidePositions L s) = this_slides s"
  "this_totalSlides (calculateSlidePositions L s) = this_totalSlides s"
  "this_currentOptions (calculateSlidePositions L s) = this_currentOptions s"
  by (simp_all add: calculateSlidePositions_def Let_def)

lemma cleanupClonesForAutoplay_count:
  "length (infinite_clones (this_children (cleanupClonesForAutoplay L s)))
     \<le> length (infinite_clones (this_children s))"
  by (simp add: cleanupClonesForAutoplay_def Let_def split_beta autoplay_remove_loop_count)

lemma cleanupClonesForAutoplay_same: "same_slider s (cleanupClonesForAutoplay L s)"
  by (simp add: cleanupClonesForAutoplay_def Let_def split_beta same_slider_def)

lemma upto_bounds: "i \<in> set [0..T - 1] \<Longrightarrow> 0 \<le> i \<and> i < T"
  by auto

lemma length_upto_T: "0 \<le> T \<Longrightarrow> int (length [0..T - 1]) = T"
  by simp

lemma addClonesAtEnd_ok:
  assumes "this_totalSlides s = int (length (this_slides s))"
  shows "\<exists>s'. addClonesAtEnd L s = Inr s' \<and> same_slider s s'
           \<and> int (length (infinite_clones (this_children s')))
               \<le> int (length (infinite_clones (this_children s))) + this_totalSlides s"
proof -
  let ?mk = "\<lambda>i. clone_slide (this_slides s) [''cloned'', ''infinite-clone''] True (Some i)"
  let ?is = "[0..this_totalSlides s - 1]"
  have "\<exists>fresh' ch'. clone_loop ?mk True ?is (next_nid s) (this_children s) = Inr (fresh', ch')"
  proof (rule clone_loop_succeeds)
    fix i f assume "i \<in> set ?is"
    then have "0 \<le> i" "i < int (length (this_slides s))" using assms by auto
    then show "\<exists>c. ?mk i f = Inr c" by (rule clone_slide_succeeds)
  qed
  then obtain fresh' ch' where
    lp: "clone_loop ?mk True ?is (next_nid s) (this_children s) = Inr (fresh', ch')" by blast
  have len: "int (length ?is) = this_totalSlides s" using assms by simp
  from clone_loop_count [OF lp]
  have "int (length (infinite_clones ch'))
          \<le> int (length (infinite_clones (this_children s)) + length ?is)"
    by (rule iffD2 [OF of_nat_le_iff])
  with len have "int (length (infinite_clones ch'))
          \<le> int (length (infinite_clones (this_children s))) + this_totalSlides s"
    by (simp only: of_nat_add)
  then show ?thesis
    using lp by (simp add: addClonesAtEnd_def same_slider_def)
qed

lemma addClonesAtStart_ok:
  assumes "this_totalSlides s = int (length (this_slides s))"
  shows "\<exists>s'. addClonesAtStart L s = Inr s' \<and> same_slider s s'
           \<and> int (length (infinite_clones (this_children s')))
               \<le> int (length (infinite_clones (this_children s))) + this_totalSlides s"
proof -
  let ?is = "rev [0..this_totalSlides s - 1]"
  have "\<exists>r. addClonesAtStart_loop L (gap (this_currentOptions s)) (this_slides s) ?is
               (next_nid s) (this_children s) 0 = Inr r"
    by (rule addClonesAtStart_loop_succeeds) (use assms in auto)
  then obtain fresh' ch' w' where
    lp: "addClonesAtStart_loop L (gap (this_currentOptions s)) (this_slides s) ?is
               (next_nid s) (this_children s) 0 = Inr (fresh', ch', w')"
    by (metis prod_cases3)
  have len: "int (length ?is) = this_totalSlides s" using assms by simp
  from addClonesAtStart_loop_count [OF lp]
  have "int (length (infinite_clones ch'))
          \<le> int (length (infinite_clones (this_children s)) + length ?is)"
    by (rule iffD2 [OF of_nat_le_iff])
  with len have "int (length (infinite_clones ch'))
          \<le> int (length (infinite_clones (this_children s))) + this_totalSlides s"
    by (simp only: of_nat_add)
  then show ?thesis
    using lp by (simp add: addClonesAtStart_def same_slider_def Let_def)
qed

lemma handleInfiniteScroll_dynamic_ok:
  assumes T: "this_totalSlides s = int (length (this_slides s))"
    and ap: "autoplay (this_currentOptions s)"
    and bound: "int (length (infinite_clones (this_children s))) \<le> 4 * this_totalSlides s"
  shows "\<exists>s'. handleInfiniteScroll_dynamic L s = Inr s' \<and> same_slider s s'
           \<and> int (length (infinite_clones (this_children s'))) \<le> 4 * this_totalSlides s"
proof -
  let ?T = "this_totalSlides s"
  let ?n = "\<lambda>s. int (length (infinite_clones (this_children s)))"
  let ?grow1 = "track_scrollWidth L (this_children s) - (this_scrollLeft s + container_offsetWidth L)
                  < container_offsetWidth L \<and> ?n s < ?T * 3"
  have T0: "0 \<le> ?T" using T by simp
  obtain s1 where s1: "(if ?grow1 then addClonesAtEnd L s else Inr s) = Inr s1"
    and f1: "same_slider s s1" and b1: "?n s1 \<le> 4 * ?T"
  proof (cases ?grow1)
    case True
    from addClonesAtEnd_ok [OF T, of L] obtain s' where
      "addClonesAtEnd L s = Inr s'" "same_slider s s'" "?n s' \<le> ?n s + ?T" by blast
    with True that show ?thesis by auto
  next
    case False
    with bound that show ?thesis by auto
  qed
  have T1: "this_totalSlides s1 = int (length (this_slides s1))" "this_totalSlides s1 = ?T"
    using f1 T by (simp_all add: same_slider_def)
  let ?grow2 = "this_scrollLeft s < container_offsetWidth L \<and> ?n s1 < ?T * 3"
  obtain s2 where s2: "(if ?grow2 then addClonesAtStart L s1 else Inr s1) = Inr s2"
    and f2: "same_slider s1 s2" and b2: "?n s2 \<le> 4 * ?T"
  proof (cases ?grow2)
    case True
    from addClonesAtStart_ok [OF T1(1), of L] obtain s' where
      "addClonesAtStart L s1 = Inr s'" "same_slider s1 s'" "?n s' \<le> ?n s1 + this_totalSlides s1"
      by blast
    with True T1(2) that show ?thesis by auto
  next
    case False
    with b1 that show ?thesis by auto
  qed
  have ap2: "autoplay (this_currentOptions s2)"
    using f1 f2 ap by (simp add: same_slider_def)
  have run: "handleInfiniteScroll_dynamic L s = Inr (cleanupClonesForAutoplay L s2)"
    using s1 s2 ap2 by (simp add: handleInfiniteScroll_dynamic_def Let_def cleanupDistantClones_def)
  have "same_slider s (cleanupClonesForAutoplay L s2)"
    using f1 f2 cleanupClonesForAutoplay_same [of s2 L] by (blast intro: same_slider_trans)
  moreover have "?n (cleanupClonesForAutoplay L s2) \<le> 4 * ?T"
    using cleanupClonesForAutoplay_count [of L s2] b2 by linarith
  ultimately show ?thesis using run by blast
qed

lemma autoplay_callback_ok:
  assumes "this_slides s \<noteq> []"
  shows "\<exists>s'. autoplay_callback L s = Inr s' \<and> same_slider s s'
           \<and> length (infinite_clones (this_children s')) \<le> length (infinite_clones (this_children s))"
proof (cases "this_isScrolling s")
  case True
  then show ?thesis by (simp add: autoplay_callback_def)
next
  case False
  obtain s0 rest where sl: "this_slides s = s0 # rest" using assms by (cases "this_slides s") auto
  define s1 where "s1 = s\<lparr>this_scrollTo_calls := this_scrollTo_calls s
      @ [\<lparr>left = Some (this_scrollLeft s
            + (node_offsetWidth L (this_children s) s0 + gap (this_currentOptions s))
              * real_of_int (slidesToScroll (this_currentOptions s))), behavior = ''smooth''\<rparr>]\<rparr>"
  have run: "autoplay_callback L s = Inr (cleanupClonesForAutoplay L s1)"
    using False sl by (simp add: autoplay_callback_def Let_def s1_def)
  have "same_slider s s1" "this_children s1 = this_children s"
    by (simp_all add: s1_def same_slider_def)
  with cleanupClonesForAutoplay_same [of s1 L] cleanupClonesForAutoplay_count [of L s1] run
  show ?thesis by (auto intro: same_slider_trans)
qed

lemma autoplay_tick_ok:
  assumes T: "this_totalSlides s = int (length (this_slides s))"
    and md: "infinite (this_currentOptions s)" "\<not> bounceBack (this_currentOptions s)"
    and ap: "autoplay (this_currentOptions s)"
    and ne: "this_slides s \<noteq> []"
    and bound: "int (length (infinite_clones (this_children s))) \<le> 4 * this_totalSlides s"
  shows "\<exists>s'. autoplay_tick L x s = Inr s' \<and> same_slider s s'
           \<and> int (length (infinite_clones (this_children s'))) \<le> 4 * this_totalSlides s"
proof -
  from autoplay_callback_ok [OF ne, of L] obtain s1 where
    cb: "autoplay_callback L s = Inr s1" and f1: "same_slider s s1"
    and c1: "length (infinite_clones (this_children s1)) \<le> length (infinite_clones (this_children s))"
    by blast
  let ?s2 = "s1\<lparr>this_scrollLeft := x\<rparr>"
  have f2: "same_slider s ?s2" using f1 by (simp add: same_slider_def)
  have T2: "this_totalSlides ?s2 = int (length (this_slides ?s2))"
    and ap2: "autoplay (this_currentOptions ?s2)"
    and md2: "infinite (this_currentOptions ?s2)" "\<not> bounceBack (this_currentOptions ?s2)"
    and b2: "int (length (infinite_clones (this_children ?s2))) \<le> 4 * this_totalSlides ?s2"
    using f1 T ap md bound c1 by (simp_all add: same_slider_def)
  from handleInfiniteScroll_dynamic_ok [OF T2 ap2 b2, of L] obtain s' where
    h: "handleInfiniteScroll_dynamic L ?s2 = Inr s'" and f3: "same_slider ?s2 s'"
    and b3: "int (length (infinite_clones (this_children s'))) \<le> 4 * this_totalSlides ?s2"
    by blast
  have "handleScrollEnd L ?s2 = Inr s'" using h md2 by (simp add: handleScrollEnd_def)
  with cb have "autoplay_tick L x s = Inr s'" by (simp add: autoplay_tick_def)
  moreover have "same_slider s s'" using f2 f3 by (rule same_slider_trans)
  moreover have "int (length (infinite_clones (this_children s'))) \<le> 4 * this_totalSlides s"
    using b3 f1 by (simp add: same_slider_def)
  ultimately show ?thesis by blast
qed

lemma autoplay_ticks_ok:
  assumes "this_totalSlides s = int (length (this_slides s))"
    and "infinite (this_currentOptions s)" and "\<not> bounceBack (this_currentOptions s)"
    and "autoplay (this_currentOptions s)"
    and "this_slides s \<noteq> []"
    and "int (length (infinite_clones (this_children s))) \<le> 4 * this_totalSlides s"
  shows "\<exists>s'. autoplay_ticks L xs s = Inr s' \<and> same_slider s s'
           \<and> int (length (infinite_clones (this_children s'))) \<le> 4 * this_totalSlides s"
  using assms
proof (induction xs arbitrary: s)
  case Nil
  then show ?case by simp
next
  case (Cons x xs)
  from autoplay_tick_ok [OF Cons.prems, of L x] obtain s1 where
    t: "autoplay_tick L x s = Inr s1" and f: "same_slider s s1"
    and b: "int (length (infinite_clones (this_children s1))) \<le> 4 * this_totalSlides s" by blast
  have p: "this_totalSlides s1 = int (length (this_slides s1))"
    "infinite (this_currentOptions s1)" "\<not> bounceBack (this_currentOptions s1)"
    "autoplay (this_currentOptions s1)" "this_slides s1 \<noteq> []"
    "int (length (infinite_clones (this_children s1))) \<le> 4 * this_totalSlides s1"
    using f b Cons.prems by (simp_all add: same_slider_def)
  from Cons.IH [OF p] obtain s' where
    "autoplay_ticks L xs s1 = Inr s'" "same_slider s1 s'"
    "int (length (infinite_clones (this_children s'))) \<le> 4 * this_totalSlides s1" by blast
  with t f show ?case by (auto simp: same_slider_def)
qed

lemma infinite_clones_length_le: "length (infinite_clones ch) \<le> length ch"
  by (simp add: infinite_clones_def)

lemma setupClonedSlides_infinite_ok:
  assumes T: "this_totalSlides s = int (length (this_slides s))"
    and guard: "this_totalSlides s > slidesToShow (this_currentOptions s)"
  shows "\<exists>s'. setupClonedSlides ''infinite'' s = Inr s' \<and> same_slider s s'
           \<and> int (length (infinite_clones (this_children s')))
               \<le> int (length (infinite_clones (this_children s))) + 2 * this_totalSlides s"
proof -
  let ?T = "this_totalSlides s"
  let ?k = "slidesToShow (this_currentOptions s) + 1"
  let ?cs = "[''cloned'', ''infinite-clone'']"
  let ?mk1 = "\<lambda>i. clone_slide (this_slides s) ?cs True (js_rem i ?T)"
  let ?mk2 = "\<lambda>i. clone_slide (this_slides s) ?cs True (js_rem (?T - ?k + i) ?T)"
  have k: "?k \<le> ?T" using guard by simp
  have "\<exists>fresh' ch'. clone_loop ?mk1 True [0..?k - 1] (next_nid s) (this_children s)
          = Inr (fresh', ch')"
  proof (rule clone_loop_succeeds)
    fix i f assume "i \<in> set [0..?k - 1]"
    then have i: "0 \<le> i" "i < ?T" using k by auto
    then have "js_rem i ?T = Some i" by (rule js_rem_small)
    moreover have "\<exists>c. clone_slide (this_slides s) ?cs True (Some i) f = Inr c"
      using i T by (intro clone_slide_succeeds) simp_all
    ultimately show "\<exists>c. ?mk1 i f = Inr c" by simp
  qed
  then obtain f1 ch1 where
    l1: "clone_loop ?mk1 True [0..?k - 1] (next_nid s) (this_children s) = Inr (f1, ch1)" by blast
  have "\<exists>fresh' ch'. clone_loop ?mk2 False [0..?k - 1] f1 ch1 = Inr (fresh', ch')"
  proof (rule clone_loop_succeeds)
    fix i f assume "i \<in> set [0..?k - 1]"
    then have i: "0 \<le> ?T - ?k + i" "?T - ?k + i < ?T" using k by auto
    then have "js_rem (?T - ?k + i) ?T = Some (?T - ?k + i)" by (rule js_rem_small)
    moreover have "\<exists>c. clone_slide (this_slides s) ?cs True (Some (?T - ?k + i)) f = Inr c"
      using i T by (intro clone_slide_succeeds) simp_all
    ultimately show "\<exists>c. ?mk2 i f = Inr c" by simp
  qed
  then obtain f2 ch2 where l2: "clone_loop ?mk2 False [0..?k - 1] f1 ch1 = Inr (f2, ch2)" by blast
  have len: "int (length [0..?k - 1]) \<le> ?T" using k T by simp
  from clone_loop_count [OF l1] clone_loop_count [OF l2]
  have "length (infinite_clones ch2)
          \<le> length (infinite_clones (this_children s)) + length [0..?k - 1] + length [0..?k - 1]"
    by linarith
  then have "int (length (infinite_clones ch2))
          \<le> int (length (infinite_clones (this_children s)) + length [0..?k - 1] + length [0..?k - 1])"
    by (rule iffD2 [OF of_nat_le_iff])
  with len have cnt: "int (length (infinite_clones ch2))
          \<le> int (length (infinite_clones (this_children s))) + 2 * ?T"
    by (simp only: of_nat_add)
  have "setupClonedSlides ''infinite'' s
          = Inr (s\<lparr>this_children := ch2, next_nid := f2,
                   this_initialCloneCount := Some ?k, this_allSlides := Some ch2\<rparr>)"
    using l1 l2 by (simp add: setupClonedSlides_def Let_def)
  with cnt show ?thesis by (simp add: same_slider_def)
qed

lemma setupSlides_clones_infinite_ok:
  assumes inf: "infinite opts"
  shows "\<exists>s0. setupSlides_clones (new_slider opts sl) = Inr s0
           \<and> same_slider (new_slider opts sl) s0
           \<and> int (length (infinite_clones (this_children s0))) \<le> 4 * int (length sl)"
proof -
  let ?s = "new_slider opts sl"
  have T: "this_totalSlides ?s = int (length (this_slides ?s))"
    and c0: "int (length (infinite_clones (this_children ?s))) \<le> int (length sl)"
    and o: "this_currentOptions ?s = opts" and Tl: "this_totalSlides ?s = int (length sl)"
    using infinite_clones_length_le [of sl] by (simp_all add: new_slider_def)
  show ?thesis
  proof (cases "this_totalSlides ?s > slidesToShow opts")
    case True
    then have g: "this_totalSlides ?s > slidesToShow (this_currentOptions ?s)" using o by simp
    from setupClonedSlides_infinite_ok [OF T g] obtain s' where
      "setupClonedSlides ''infinite'' ?s = Inr s'" "same_slider ?s s'"
      "int (length (infinite_clones (this_children s')))
         \<le> int (length (infinite_clones (this_children ?s))) + 2 * this_totalSlides ?s" by blast
    moreover have "setupSlides_clones ?s = setupClonedSlides ''infinite'' ?s"
      using True inf o by (simp add: setupSlides_clones_def setupTrueInfinite_dynamic_def Let_def)
    ultimately show ?thesis using c0 Tl by (intro exI [of _ s']) simp
  next
    case False
    then have "setupSlides_clones ?s = Inr ?s"
      using o by (simp add: setupSlides_clones_def Let_def)
    with c0 show ?thesis by (intro exI [of _ ?s]) simp
  qed
qed

text \<open>
  C2: take an infinite slider (\<open>infinite\<close> on, \<open>bounceBack\<close> off) with autoplay over the real
  slides \<open>sl\<close> (at least one), set up by \<open>setupSlides()\<close>. The setup does not fail, and after any number of autoplay ticks,
  whatever the layout measures and wherever the host scrolls, the run does not fail and the
  number of \<open>.infinite-clone\<close> children of the track is at most \<open>4 * totalSlides\<close>.
\<close>

theorem autoplay_clone_bound:
  assumes "infinite opts" and "\<not> bounceBack opts" and "autoplay opts" and "sl \<noteq> []"
  shows "\<exists>s0. setupSlides_clones (new_slider opts sl) = Inr s0
           \<and> (\<forall>xs. \<exists>s. autoplay_ticks L xs s0 = Inr s
                  \<and> this_totalSlides s = int (length sl)
                  \<and> int (length (infinite_clones (this_children s))) \<le> 4 * this_totalSlides s)"
proof -
  from setupSlides_clones_infinite_ok [OF assms(1), of sl] obtain s0 where
    s0: "setupSlides_clones (new_slider opts sl) = Inr s0"
    and f: "same_slider (new_slider opts sl) s0"
    and b: "int (length (infinite_clones (this_children s0))) \<le> 4 * int (length sl)" by blast
  have p: "this_totalSlides s0 = int (length (this_slides s0))"
    "infinite (this_currentOptions s0)" "\<not> bounceBack (this_currentOptions s0)"
    "autoplay (this_currentOptions s0)" "this_slides s0 \<noteq> []"
    "int (length (infinite_clones (this_children s0))) \<le> 4 * this_totalSlides s0"
    and Tl: "this_totalSlides s0 = int (length sl)"
    using f b assms by (simp_all add: same_slider_def new_slider_def)
  have "\<exists>s. autoplay_ticks L xs s0 = Inr s \<and> this_totalSlides s = int (length sl)
            \<and> int (length (infinite_clones (this_children s))) \<le> 4 * this_totalSlides s" for xs
  proof -
    from autoplay_ticks_ok [OF p, of L xs] obtain s where
      "autoplay_ticks L xs s0 = Inr s" "same_slider s0 s"
      "int (length (infinite_clones (this_children s))) \<le> 4 * this_totalSlides s0" by blast
    with Tl show ?thesis by (auto simp: same_slider_def)
  qed
  with s0 show ?thesis by blast
qed

theorem autoplay_clone_bound_witness:
  "\<exists>s0. setupSlides_clones
          (new_slider (plain_options\<lparr>infinite := True, autoplay := True\<rparr>) (real_slides 5)) = Inr s0
     \<and> (\<exists>s. autoplay_ticks (flex_row 1200 384 24) [100, 4000, 9000] s0 = Inr s
           \<and> int (length (infinite_clones (this_children s))) \<le> 20)"
proof -
  let ?o = "plain_options\<lparr>infinite := True, autoplay := True\<rparr>"
  have h: "infinite ?o" "\<not> bounceBack ?o" "autoplay ?o" "real_slides 5 \<noteq> []"
    by (simp_all add: plain_options_def real_slides_def upt_conv_Cons)
  have l: "int (length (real_slides 5)) = 5" by (simp add: real_slides_def)
  from autoplay_clone_bound [OF h, of "flex_row 1200 384 24", unfolded l] obtain s0 where
    a: "setupSlides_clones (new_slider ?o (real_slides 5)) = Inr s0"
    and b: "\<forall>xs. \<exists>s. autoplay_ticks (flex_row 1200 384 24) xs s0 = Inr s
         \<and> this_totalSlides s = 5
         \<and> int (length (infinite_clones (this_children s))) \<le> 4 * this_totalSlides s" by blast
  from b obtain s where "autoplay_ticks (flex_row 1200 384 24) [100, 4000, 9000] s0 = Inr s"
    "this_totalSlides s = 5"
    "int (length (infinite_clones (this_children s))) \<le> 4 * this_totalSlides s" by blast
  then have "autoplay_ticks (flex_row 1200 384 24) [100, 4000, 9000] s0 = Inr s
     \<and> int (length (infinite_clones (this_children s))) \<le> 20" by simp
  with a show ?thesis by blast
qed

end
